theory Spec2Isabelle
  imports
    Main
    "HOL-Library.Char_ord"
    "HOL-Library.List_Lexorder"
    "HOL-Library.Multiset"
    "HOL-Library.Product_Lexorder"
    "HOL-Library.Sublist"
begin

text \<open>
  A model of package \<open>configkit\<close> of stackkit: the registry of configuration
  requirements (\<open>registerRequirementType\<close>, \<open>Requirements\<close>), the field specifications
  read off a Go type (\<open>Spec\<close>, \<open>walkStruct\<close>), the check of a provider against the
  registry (\<open>Check\<close>, \<open>formatValidationIssues\<close>, \<open>findUnknownKeys\<close>), the YAML
  skeleton (\<open>Skeleton\<close>) and the redaction of secrets (\<open>Redact\<close>). The definitions
  follow the Go source function by function; the theorems come after all of them.
\<close>

section \<open>Strings\<close>

text \<open>
  A Go string is a sequence of bytes; it is modelled as a \<open>string\<close> (a list of 8-bit
  characters). Go compares strings bytewise and lexicographically, which is the order of
  \<open>HOL-Library.List_Lexorder\<close> over \<open>HOL-Library.Char_ord\<close>.

  The functions of package \<open>strings\<close> that the code calls are modelled on bytes, with
  UTF-8 where Go reads runes.
\<close>

text \<open>
  The white space of \<open>unicode.IsSpace\<close>, each rune in UTF-8: the six of ASCII (tab, line
  feed, vertical tab, form feed, carriage return, space), U+0085, U+00A0, U+1680, U+2000
  to U+200A, U+2028, U+2029, U+202F, U+205F and U+3000.
\<close>

definition spaceRunes :: "string list" where
  "spaceRunes =
     [[CHR 0x09], [CHR 0x0A], [CHR 0x0B], [CHR 0x0C], [CHR 0x0D], [CHR 0x20],
      [CHR 0xC2, CHR 0x85], [CHR 0xC2, CHR 0xA0],
      [CHR 0xE1, CHR 0x9A, CHR 0x80],
      [CHR 0xE2, CHR 0x80, CHR 0x80], [CHR 0xE2, CHR 0x80, CHR 0x81],
      [CHR 0xE2, CHR 0x80, CHR 0x82], [CHR 0xE2, CHR 0x80, CHR 0x83],
      [CHR 0xE2, CHR 0x80, CHR 0x84], [CHR 0xE2, CHR 0x80, CHR 0x85],
      [CHR 0xE2, CHR 0x80, CHR 0x86], [CHR 0xE2, CHR 0x80, CHR 0x87],
      [CHR 0xE2, CHR 0x80, CHR 0x88], [CHR 0xE2, CHR 0x80, CHR 0x89],
      [CHR 0xE2, CHR 0x80, CHR 0x8A],
      [CHR 0xE2, CHR 0x80, CHR 0xA8], [CHR 0xE2, CHR 0x80, CHR 0xA9],
      [CHR 0xE2, CHR 0x80, CHR 0xAF], [CHR 0xE2, CHR 0x81, CHR 0x9F],
      [CHR 0xE3, CHR 0x80, CHR 0x80]]"

text \<open>
  \<open>trimLeftOf runes s\<close> takes from the front of \<open>s\<close>, as long as there is one, a
  sequence of bytes that is one of \<open>runes\<close>. No sequence of \<open>spaceRunes\<close> begins
  another, so the order in which they are tried does not matter.
\<close>

function trimLeftOf :: "string list \<Rightarrow> string \<Rightarrow> string" where
  "trimLeftOf runes s =
     (case find (\<lambda>e. e \<noteq> [] \<and> prefix e s) runes of
        None \<Rightarrow> s
      | Some e \<Rightarrow> trimLeftOf runes (drop (length e) s))"
  by pat_completeness auto

termination
proof (relation "measure (\<lambda>(runes, s). length s)", goal_cases)
  case 1
  show ?case by simp
next
  case (2 runes s e)
  then have "e \<noteq> []" and "prefix e s"
    by (auto simp: find_Some_iff)
  then have "0 < length e" and "length e \<le> length s"
    by (auto simp: prefix_def)
  then show ?case by (cases e) auto
qed

text \<open>
  \<open>strings.TrimSpace(s)\<close>: the leading and the trailing white space is cut off, rune by
  rune. At the front a rune is read by \<open>utf8.DecodeRuneInString\<close>, at the back by
  \<open>utf8.DecodeLastRuneInString\<close>; each returns a white-space rune exactly when the string
  begins, or ends, with the UTF-8 form of that rune, and an invalid byte is read as
  U+FFFD, which is no white space.
\<close>

definition TrimSpace :: "string \<Rightarrow> string" where
  "TrimSpace s = rev (trimLeftOf (map rev spaceRunes) (rev (trimLeftOf spaceRunes s)))"

text \<open>
  \<open>strings.ToLower(s)\<close>. When every byte of \<open>s\<close> is below 128, the letters A to Z are
  lowered byte by byte. Otherwise the result is \<open>strings.Map(unicode.ToLower, s)\<close>, which
  rests on the case tables of package \<open>unicode\<close>; this function of the Go library is the
  parameter \<open>mapLower\<close> here and of every function below that lowers a string.
\<close>

definition toLowerChar :: "char \<Rightarrow> char" where
  "toLowerChar c =
     (let n = (of_char c :: nat) in if 65 \<le> n \<and> n \<le> 90 then char_of (n + 32) else c)"

definition ToLower :: "(string \<Rightarrow> string) \<Rightarrow> string \<Rightarrow> string" where
  "ToLower mapLower s =
     (if list_all (\<lambda>c. (of_char c :: nat) < 128) s then map toLowerChar s else mapLower s)"

text \<open>\<open>strings.Split(s, sep)\<close> for a separator of one byte; it never returns the empty list.\<close>

fun Split :: "string \<Rightarrow> char \<Rightarrow> string list" where
  "Split [] sep = [[]]"
| "Split (c # cs) sep =
     (if c = sep then [] # Split cs sep
      else (case Split cs sep of [] \<Rightarrow> [[c]] | w # ws \<Rightarrow> (c # w) # ws))"

text \<open>\<open>strings.Join(parts, ".")\<close>.\<close>

fun Join :: "string list \<Rightarrow> string \<Rightarrow> string" where
  "Join [] sep = []"
| "Join [p] sep = p"
| "Join (p # q # ps) sep = p @ sep @ Join (q # ps) sep"

text \<open>\<open>strings.Contains(s, sub)\<close>.\<close>

fun Contains :: "string \<Rightarrow> string \<Rightarrow> bool" where
  "Contains [] sub = (sub = [])"
| "Contains (c # cs) sub = (prefix sub (c # cs) \<or> Contains cs sub)"

text \<open>
  \<open>strings.Index(s, sub)\<close> and \<open>strings.LastIndex(s, sub)\<close>: the position of the first
  and of the last occurrence; Go's result \<open>-1\<close> is \<open>None\<close>.
\<close>

fun Index :: "string \<Rightarrow> string \<Rightarrow> nat option" where
  "Index [] sub = (if sub = [] then Some 0 else None)"
| "Index (c # cs) sub =
     (if prefix sub (c # cs) then Some 0 else map_option Suc (Index cs sub))"

fun LastIndex :: "string \<Rightarrow> string \<Rightarrow> nat option" where
  "LastIndex [] sub = (if sub = [] then Some 0 else None)"
| "LastIndex (c # cs) sub =
     (case LastIndex cs sub of
        Some i \<Rightarrow> Some (Suc i)
      | None \<Rightarrow> (if prefix sub (c # cs) then Some 0 else None))"

section \<open>Types as package reflect shows them\<close>

text \<open>
  The code inspects Go types through \<open>reflect.Type\<close>. A type is modelled by what the code
  reads from it: its kind, \<open>Name()\<close>, \<open>PkgPath()\<close>, \<open>String()\<close>, and for a struct its
  fields in declaration order. A pointer type has the empty name and package path, and its
  string form is \<open>*\<close> followed by the string form of its element, as in Go.

  The model holds the types that are finite trees. A Go type that reaches itself through a
  pointer (\<open>type N struct { Next *N }\<close>) is outside it; on such a type the recursive
  walks below do not return.
\<close>

datatype bkind =
    KBool | KInt | KInt8 | KInt16 | KInt32 | KInt64
  | KUint | KUint8 | KUint16 | KUint32 | KUint64 | KUintptr
  | KFloat32 | KFloat64 | KComplex64 | KComplex128
  | KArray | KChan | KFunc | KInterface | KMap | KSlice | KString | KUnsafePointer

datatype kind = KBasic bkind | KPtr | KStruct

text \<open>\<open>Kind.String()\<close>.\<close>

fun bkind_String :: "bkind \<Rightarrow> string" where
  "bkind_String KBool = ''bool''"
| "bkind_String KInt = ''int''"
| "bkind_String KInt8 = ''int8''"
| "bkind_String KInt16 = ''int16''"
| "bkind_String KInt32 = ''int32''"
| "bkind_String KInt64 = ''int64''"
| "bkind_String KUint = ''uint''"
| "bkind_String KUint8 = ''uint8''"
| "bkind_String KUint16 = ''uint16''"
| "bkind_String KUint32 = ''uint32''"
| "bkind_String KUint64 = ''uint64''"
| "bkind_String KUintptr = ''uintptr''"
| "bkind_String KFloat32 = ''float32''"
| "bkind_String KFloat64 = ''float64''"
| "bkind_String KComplex64 = ''complex64''"
| "bkind_String KComplex128 = ''complex128''"
| "bkind_String KArray = ''array''"
| "bkind_String KChan = ''chan''"
| "bkind_String KFunc = ''func''"
| "bkind_String KInterface = ''interface''"
| "bkind_String KMap = ''map''"
| "bkind_String KSlice = ''slice''"
| "bkind_String KString = ''string''"
| "bkind_String KUnsafePointer = ''unsafe.Pointer''"

fun kind_String :: "kind \<Rightarrow> string" where
  "kind_String (KBasic b) = bkind_String b"
| "kind_String KPtr = ''ptr''"
| "kind_String KStruct = ''struct''"

text \<open>
  \<open>reflect.StructField\<close>: the field's Go name, its \<open>PkgPath\<close> (empty exactly for an
  exported field), whether it is embedded, and the values \<open>Tag.Get\<close> returns for the three
  tag keys the code asks for (the empty string when the key is absent).
\<close>

record sfield =
  fName :: string
  fPkgPath :: string
  fAnonymous :: bool
  tagYaml :: string
  tagJson :: string
  tagValidate :: string

datatype rtype =
    TBasic bkind string string string
  | TPtr rtype
  | TStruct string string string "(sfield \<times> rtype) list"

fun Kind :: "rtype \<Rightarrow> kind" where
  "Kind (TBasic b n p s) = KBasic b"
| "Kind (TPtr t) = KPtr"
| "Kind (TStruct n p s fs) = KStruct"

fun Name :: "rtype \<Rightarrow> string" where
  "Name (TBasic b n p s) = n"
| "Name (TPtr t) = []"
| "Name (TStruct n p s fs) = n"

fun PkgPath :: "rtype \<Rightarrow> string" where
  "PkgPath (TBasic b n p s) = p"
| "PkgPath (TPtr t) = []"
| "PkgPath (TStruct n p s fs) = p"

fun String_of :: "rtype \<Rightarrow> string" where
  "String_of (TBasic b n p s) = s"
| "String_of (TPtr t) = CHR ''*'' # String_of t"
| "String_of (TStruct n p s fs) = s"

text \<open>\<open>t.Elem()\<close>, which the code calls on pointer types only.\<close>

fun Elem :: "rtype \<Rightarrow> rtype" where
  "Elem (TPtr t) = t"
| "Elem t = t"

text \<open>The fields of a struct type (\<open>NumField\<close> and \<open>Field(i)\<close>, read in order).\<close>

fun Fields :: "rtype \<Rightarrow> (sfield \<times> rtype) list" where
  "Fields (TStruct n p s fs) = fs"
| "Fields t = []"

text \<open>The loop \<open>for base.Kind() == reflect.Ptr { base = base.Elem() }\<close>.\<close>

fun unwrapPtr :: "rtype \<Rightarrow> rtype" where
  "unwrapPtr (TPtr t) = unwrapPtr t"
| "unwrapPtr t = t"

section \<open>Tags\<close>

text \<open>\<open>parseYAMLTag(tag, f)\<close>: the external name of a field and whether it is inline.\<close>

definition parseYAMLTag :: "(string \<Rightarrow> string) \<Rightarrow> string \<Rightarrow> sfield \<Rightarrow> string \<times> bool" where
  "parseYAMLTag mapLower tag0 f =
     (let tag = TrimSpace tag0 in
      if tag = [] then
        (let j = TrimSpace (tagJson f);
             dflt = (ToLower mapLower (take 1 (fName f)) @ drop 1 (fName f), False)
         in if j \<noteq> [] then
              (case Split j (CHR '','') of
                 [] \<Rightarrow> dflt
               | p0 # ps \<Rightarrow> if p0 \<noteq> [] \<and> p0 \<noteq> ''-'' then (p0, False) else dflt)
            else dflt)
      else
        (case Split tag (CHR '','') of
           [] \<Rightarrow> ([], False)
         | p0 # ps \<Rightarrow>
             (if p0 \<noteq> [] then p0 else fName f,
              list_ex (\<lambda>p. TrimSpace p = ''inline'') ps)))"

text \<open>\<open>hasRequired(tag)\<close>.\<close>

definition hasRequired :: "string \<Rightarrow> bool" where
  "hasRequired tag =
     (if tag = [] then False
      else list_ex (\<lambda>tok. TrimSpace tok = ''required'') (Split tag (CHR '','')))"

text \<open>\<open>trimPkg(s)\<close>: what follows the last dot.\<close>

definition trimPkg :: "string \<Rightarrow> string" where
  "trimPkg s = (case LastIndex s ''.'' of Some i \<Rightarrow> drop (i + 1) s | None \<Rightarrow> s)"

section \<open>Field specifications\<close>

record FieldSpec =
  fs_Path :: string
  fs_Type :: string
  fs_Required :: bool

text \<open>
  \<open>walkStruct(t, prefix, out)\<close> appends to \<open>*out\<close>; the model returns the entries it
  appends, in order. \<open>walkFields\<close> is the loop over the fields of the struct.
\<close>

lemma size_unwrapPtr: "size (unwrapPtr t) \<le> size t"
  by (induction t rule: unwrapPtr.induct) auto

function walkStruct :: "(string \<Rightarrow> string) \<Rightarrow> rtype \<Rightarrow> string \<Rightarrow> FieldSpec list"
  and walkFields :: "(string \<Rightarrow> string) \<Rightarrow> (sfield \<times> rtype) list \<Rightarrow> string \<Rightarrow> FieldSpec list" where
  "walkStruct mapLower t0 pfx =
     (let t = (if Kind t0 = KPtr then Elem t0 else t0) in
      if Kind t \<noteq> KStruct then [] else walkFields mapLower (Fields t) pfx)"
| "walkFields mapLower [] pfx = []"
| "walkFields mapLower ((f, ft) # fs) pfx =
     (if fPkgPath f \<noteq> [] then walkFields mapLower fs pfx
      else
        (let (name, inline) = parseYAMLTag mapLower (tagYaml f) f;
             required = hasRequired (tagValidate f);
             path = (if inline then pfx
                     else if pfx = [] then name else pfx @ ''.'' @ name);
             base = unwrapPtr ft
         in (if Kind base = KStruct then walkStruct mapLower base path
             else if name = ''-'' then []
             else [\<lparr> fs_Path = path,
                     fs_Type = (if Name base \<noteq> [] then Name base else kind_String (Kind base)),
                     fs_Required = required \<rparr>])
            @ walkFields mapLower fs pfx))"
  by pat_completeness auto

termination
proof (relation "measure (\<lambda>x. case x of
           Inl (_, t, _) \<Rightarrow> 2 * size t + 1
         | Inr (_, fs, _) \<Rightarrow> 2 * size_list (size_prod (\<lambda>_. 0) size) fs)", goal_cases)
  case 1
  show ?case by simp
next
  case (2 mapLower t0 pfx t)
  then show ?case by (cases t0; cases t) (auto split: if_splits)
next
  case (3 mapLower f ft fs pfx)
  then show ?case by simp
next
  case (4 mapLower f ft fs pfx x name inline required path base)
  then show ?case using size_unwrapPtr [of ft] by simp
next
  case (5 mapLower f ft fs pfx x name inline required path base)
  then show ?case by simp
qed

section \<open>The requirement registry\<close>

record Requirement =
  req_Key :: string
  req_Type :: string
  req_PkgPath :: string

text \<open>
  \<open>reqEntry\<close>, and the two package variables \<open>reqSeen\<close> and \<open>reqs\<close> as one state. The mutex
  is left out: every operation is modelled as one atomic step, which is what it enforces.
\<close>

record reqEntry =
  e_key :: string
  e_t :: rtype
  e_base :: rtype

record registry =
  reqSeen :: "string set"
  reqs :: "reqEntry list"

text \<open>The registry at start, and after \<open>ResetDiscoveryForTests\<close>.\<close>

definition emptyRegistry :: registry where
  "emptyRegistry = \<lparr> reqSeen = {}, reqs = [] \<rparr>"

definition ResetDiscoveryForTests :: "registry \<Rightarrow> registry" where
  "ResetDiscoveryForTests R = \<lparr> reqSeen = {}, reqs = [] \<rparr>"

definition typeKey :: "string \<Rightarrow> rtype \<Rightarrow> string" where
  "typeKey key t = key @ [CHR 0x00] @ String_of t"

definition registerRequirementType :: "string \<Rightarrow> rtype \<Rightarrow> registry \<Rightarrow> registry" where
  "registerRequirementType key tt R =
     (let base = unwrapPtr tt;
          k = typeKey key tt
      in if k \<notin> reqSeen R
         then R\<lparr> reqSeen := insert k (reqSeen R),
                 reqs := reqs R @ [\<lparr> e_key = key, e_t = tt, e_base = base \<rparr>] \<rparr>
         else R)"

text \<open>
  \<open>RegisterRequirementType(key, tt)\<close> and \<open>RegisterRequirement(key, sample)\<close> return at
  once on a nil type or sample, which is \<open>None\<close> here.
\<close>

definition RegisterRequirementType :: "string \<Rightarrow> rtype option \<Rightarrow> registry \<Rightarrow> registry" where
  "RegisterRequirementType key tt R =
     (case tt of None \<Rightarrow> R | Some t \<Rightarrow> registerRequirementType key t R)"

text \<open>
  The type name shown to the user: \<open>Name()\<close>, after the last segment of the package path
  when there is one. \<open>Requirements\<close> and \<open>Check\<close> each compute it inline, with the same
  statements.
\<close>

definition typeName :: "rtype \<Rightarrow> string" where
  "typeName typ =
     (let tname = Name typ; pkg = PkgPath typ in
      if pkg \<noteq> [] then
        (let parts = Split pkg (CHR ''/''); short = last parts in
         if short \<noteq> [] then short @ ''.'' @ tname else tname)
      else tname)"

text \<open>
  \<open>sort.SliceStable(out, less)\<close>: a stable sort, modelled as the insertion sort that keeps
  the order of elements neither of which is less than the other.
\<close>

fun insertStable :: "('a \<Rightarrow> 'a \<Rightarrow> bool) \<Rightarrow> 'a \<Rightarrow> 'a list \<Rightarrow> 'a list" where
  "insertStable lt x [] = [x]"
| "insertStable lt x (y # ys) =
     (if lt y x then y # insertStable lt x ys else x # y # ys)"

definition SliceStable :: "('a \<Rightarrow> 'a \<Rightarrow> bool) \<Rightarrow> 'a list \<Rightarrow> 'a list" where
  "SliceStable lt xs = foldr (insertStable lt) xs []"

text \<open>The comparison \<open>Requirements\<close> sorts with.\<close>

definition reqLess :: "Requirement \<Rightarrow> Requirement \<Rightarrow> bool" where
  "reqLess a b =
     (if req_Key a = req_Key b then req_Type a < req_Type b else req_Key a < req_Key b)"

definition toRequirement :: "reqEntry \<Rightarrow> Requirement" where
  "toRequirement r =
     \<lparr> req_Key = e_key r, req_Type = typeName (e_base r), req_PkgPath = PkgPath (e_base r) \<rparr>"

text \<open>
  \<open>Requirements()\<close> reads the registry and leaves it as it is; the model returns the list
  together with the registry after the call.
\<close>

definition Requirements :: "registry \<Rightarrow> Requirement list \<times> registry" where
  "Requirements R = (SliceStable reqLess (map toRequirement (reqs R)), R)"

datatype spec_error = RequirementNotFound string string

text \<open>\<open>Spec(req)\<close>: the first entry with the package path and the type name of \<open>req\<close>.\<close>

definition Spec :: "(string \<Rightarrow> string) \<Rightarrow> registry \<Rightarrow> Requirement \<Rightarrow> spec_error + FieldSpec list" where
  "Spec mapLower R req =
     (case find (\<lambda>r. PkgPath (e_base r) = req_PkgPath req
                     \<and> Name (e_base r) = trimPkg (req_Type req)) (reqs R) of
        None \<Rightarrow> Inl (RequirementNotFound (req_Key req) (req_Type req))
      | Some m \<Rightarrow> Inr (walkStruct mapLower (e_base m) []))"

section \<open>Dynamic values\<close>

text \<open>
  The values of type \<open>any\<close> that the raw document and \<open>Redact\<close> handle. A Go map is an
  association list whose order stands for one iteration order; \<open>mapSet\<close> is the assignment
  \<open>m[k] = v\<close>. A value of any other Go type (a float, a \<open>[]string\<close>, a struct) is
  \<open>DOther\<close>; the code passes such a value along and never looks inside.
\<close>

datatype ykey = KeyStr string | KeyInt int | KeyBool bool

datatype dyn =
    DNil
  | DBool bool
  | DInt int
  | DStr string
  | DOther string
  | DSeq "dyn list"
  | DMapS "(string \<times> dyn) list"
  | DMapA "(ykey \<times> dyn) list"

fun mapSet :: "'k \<Rightarrow> 'v \<Rightarrow> ('k \<times> 'v) list \<Rightarrow> ('k \<times> 'v) list" where
  "mapSet k v [] = [(k, v)]"
| "mapSet k v ((k', v') # m) = (if k' = k then (k, v) # m else (k', v') # mapSet k v m)"

text \<open>\<open>fmt.Sprint\<close> of a map key: a string as it is, an integer in decimal, a boolean.\<close>

fun natString :: "nat \<Rightarrow> string" where
  "natString n =
     (if n < 10 then [char_of (48 + n)] else natString (n div 10) @ [char_of (48 + n mod 10)])"

definition intString :: "int \<Rightarrow> string" where
  "intString i = (if i < 0 then CHR ''-'' # natString (nat (- i)) else natString (nat i))"

fun Sprint :: "ykey \<Rightarrow> string" where
  "Sprint (KeyStr s) = s"
| "Sprint (KeyInt i) = intString i"
| "Sprint (KeyBool b) = (if b then ''true'' else ''false'')"


section \<open>Redaction\<close>

definition secretWords :: "string list" where
  "secretWords =
     [''password'', ''secret'', ''token'', ''apikey'', ''key'', ''dsn'', ''cookie'', ''bearer'']"

definition isSecretKey :: "(string \<Rightarrow> string) \<Rightarrow> string \<Rightarrow> bool" where
  "isSecretKey mapLower k = (let low = ToLower mapLower k in list_ex (\<lambda>w. Contains low w) secretWords)"




section \<open>Unknown keys\<close>

text \<open>
  The first loop of \<open>findUnknownKeys\<close>: the map \<open>allowed\<close> of the names of the exported
  fields that are neither excluded nor inline, and the list \<open>inlineFields\<close>.
\<close>

type_synonym allowed = "(string \<times> (sfield \<times> rtype)) list"

fun collectFields ::
  "(string \<Rightarrow> string) \<Rightarrow> (sfield \<times> rtype) list \<Rightarrow> allowed \<times> (sfield \<times> rtype) list
     \<Rightarrow> allowed \<times> (sfield \<times> rtype) list" where
  "collectFields mapLower [] (allowed, inlineFields) = (allowed, inlineFields)"
| "collectFields mapLower ((f, ft) # fs) (allowed, inlineFields) =
     (if fPkgPath f \<noteq> [] then collectFields mapLower fs (allowed, inlineFields)
      else
        (let (name, inline) = parseYAMLTag mapLower (tagYaml f) f in
         if name = ''-'' then collectFields mapLower fs (allowed, inlineFields)
         else if inline then collectFields mapLower fs (allowed, inlineFields @ [(f, ft)])
         else collectFields mapLower fs (mapSet name (f, ft) allowed, inlineFields)))"

text \<open>The inner loop of the second one: the fields of one inline struct.\<close>

fun mergeInlineFields :: "(string \<Rightarrow> string) \<Rightarrow> (sfield \<times> rtype) list \<Rightarrow> allowed \<Rightarrow> allowed" where
  "mergeInlineFields mapLower [] allowed = allowed"
| "mergeInlineFields mapLower ((sf, sft) # fs) allowed =
     (if fPkgPath sf \<noteq> [] then mergeInlineFields mapLower fs allowed
      else
        (let (n, inl) = parseYAMLTag mapLower (tagYaml sf) sf in
         if n = ''-'' \<or> inl then mergeInlineFields mapLower fs allowed
         else mergeInlineFields mapLower fs (mapSet n (sf, sft) allowed)))"

text \<open>The second loop: over \<open>inlineFields\<close>.\<close>

fun mergeInlines :: "(string \<Rightarrow> string) \<Rightarrow> (sfield \<times> rtype) list \<Rightarrow> allowed \<Rightarrow> allowed" where
  "mergeInlines mapLower [] allowed = allowed"
| "mergeInlines mapLower ((f, ft0) # fs) allowed =
     (let ft = unwrapPtr ft0 in
      if Kind ft \<noteq> KStruct then mergeInlines mapLower fs allowed
      else mergeInlines mapLower fs (mergeInlineFields mapLower (Fields ft) allowed))"

definition allowedFields :: "(string \<Rightarrow> string) \<Rightarrow> rtype \<Rightarrow> allowed" where
  "allowedFields mapLower t =
     (let (allowed, inlineFields) = collectFields mapLower (Fields t) ([], []) in
      mergeInlines mapLower inlineFields allowed)"

text \<open>
  The type switch that gives \<open>mii\<close>: a \<open>map[string]interface{}\<close> is copied key by key, a
  value of any other shape ends the function.
\<close>

fun toMii :: "dyn \<Rightarrow> (ykey \<times> dyn) list option" where
  "toMii (DMapA mm) = Some mm"
| "toMii (DMapS mm) = Some (map (\<lambda>(k, v). (KeyStr k, v)) mm)"
| "toMii y = None"

lemma size_toMii:
  "toMii y = Some mii \<Longrightarrow> size_list (\<lambda>(k, v). size v) mii < size y"
proof (cases y)
  case (DMapS mm)
  have "size_list (\<lambda>(k, v). size v) (map (\<lambda>(k, v). (KeyStr k, v)) mm)
        \<le> size_list (size_prod (\<lambda>_. 0) size) mm"
    by (induction mm) auto
  moreover assume "toMii y = Some mii"
  ultimately show ?thesis using DMapS by auto
next
  case (DMapA mm)
  have "size_list (\<lambda>(k, v). size v) mm \<le> size_list (size_prod (\<lambda>_. 0) size) mm"
    by (induction mm) auto
  moreover assume "toMii y = Some mii"
  ultimately show ?thesis using DMapA by auto
qed auto

text \<open>
  \<open>findUnknownKeys(y, t, prefix)\<close>; \<open>scanKeys\<close> is its last loop, over the entries of
  \<open>mii\<close>, and \<open>sort\<close> is \<open>sort.Strings\<close>.
\<close>

function findUnknownKeys :: "(string \<Rightarrow> string) \<Rightarrow> dyn \<Rightarrow> rtype \<Rightarrow> string \<Rightarrow> string list"
  and scanKeys :: "(string \<Rightarrow> string) \<Rightarrow> (ykey \<times> dyn) list \<Rightarrow> allowed \<Rightarrow> string \<Rightarrow> string list" where
  "findUnknownKeys mapLower y t0 pfx =
     (let t = unwrapPtr t0 in
      if Kind t \<noteq> KStruct then []
      else (case toMii y of
              None \<Rightarrow> []
            | Some mii \<Rightarrow> sort (scanKeys mapLower mii (allowedFields mapLower t) pfx)))"
| "scanKeys mapLower [] allowed pfx = []"
| "scanKeys mapLower ((k, v) # mii) allowed pfx =
     (let ks = Sprint k in
      (case map_of allowed ks of
         None \<Rightarrow> (if pfx = [] then [ks] else [pfx @ ''.'' @ ks])
       | Some (f, ft0) \<Rightarrow>
           (let ft = unwrapPtr ft0 in
            if Kind ft = KStruct
            then findUnknownKeys mapLower v ft (if pfx \<noteq> [] then pfx @ ''.'' @ ks else ks)
            else []))
      @ scanKeys mapLower mii allowed pfx)"
  by pat_completeness auto

termination
proof (relation "measure (\<lambda>x. case x of
           Inl (_, y, _, _) \<Rightarrow> 2 * size y
         | Inr (_, mii, _, _) \<Rightarrow> 2 * size_list (\<lambda>(k, v). size v) mii + 1)", goal_cases)
  case 1
  show ?case by simp
next
  case (2 mapLower y t0 pfx t mii)
  then show ?case using size_toMii [of y mii] by simp
next
  case (3 mapLower k v mii allowed pfx ks f ft0 ft)
  then show ?case by simp
next
  case (4 mapLower k v mii allowed pfx ks)
  then show ?case by simp
qed

section \<open>Validation issues\<close>

text \<open>
  \<open>extractFieldAndRule(s)\<close>. The marker is 22 bytes long; \<open>CHR 0x27\<close> is the single
  quote.
\<close>

definition fieldMarker :: string where
  "fieldMarker = ''Field validation for '' @ [CHR 0x27]"

definition tagMarker :: string where
  "tagMarker = CHR 0x27 # '' tag''"

definition extractFieldAndRule :: "string \<Rightarrow> string \<times> string" where
  "extractFieldAndRule s =
     (case Index s fieldMarker of
        None \<Rightarrow> ([], [])
      | Some i \<Rightarrow>
          (let rest = drop (i + length fieldMarker) s in
           case Index rest [CHR 0x27] of
             None \<Rightarrow> ([], [])
           | Some j \<Rightarrow>
               (let field = take j rest in
                case Index rest tagMarker of
                  None \<Rightarrow> (field, [])
                | Some k \<Rightarrow>
                    (let prev = take k rest in
                     case LastIndex prev [CHR 0x27] of
                       None \<Rightarrow> (field, [])
                     | Some q \<Rightarrow> (field, drop (q + 1) prev)))))"

text \<open>
  \<open>cur.FieldByName(name)\<close> of package reflect. A field of the struct itself with that name
  is returned at once. Otherwise, and only when the struct has an embedded field, reflect
  searches the embedded structs breadth first; that search is not code of this repository
  and is the parameter \<open>promoted\<close>.
\<close>

definition FieldByName ::
  "(rtype \<Rightarrow> string \<Rightarrow> (sfield \<times> rtype) option) \<Rightarrow> rtype \<Rightarrow> string
     \<Rightarrow> (sfield \<times> rtype) option" where
  "FieldByName promoted t name =
     (if name = [] then None
      else (case find (\<lambda>(f, ft). fName f = name) (Fields t) of
              Some x \<Rightarrow> Some x
            | None \<Rightarrow>
                (if list_ex (\<lambda>(f, ft). fAnonymous f) (Fields t) then promoted t name
                 else None)))"

text \<open>
  The loop of \<open>yamlPathFromStructNS\<close> over the segments: \<open>segs\<close> is the whole list, which
  the loop returns joined when a name is not found.
\<close>

fun nsLoop ::
  "(string \<Rightarrow> string) \<Rightarrow> (rtype \<Rightarrow> string \<Rightarrow> (sfield \<times> rtype) option) \<Rightarrow> string list \<Rightarrow> rtype \<Rightarrow> string list
     \<Rightarrow> string list \<Rightarrow> string" where
  "nsLoop mapLower promoted segs cur [] path = Join path ''.''"
| "nsLoop mapLower promoted segs cur (name # rest) path =
     (case FieldByName promoted cur name of
        None \<Rightarrow> Join segs ''.''
      | Some (f, ft) \<Rightarrow>
          (let (y, inline) = parseYAMLTag mapLower (tagYaml f) f;
               path' = (if \<not> inline then path @ [y] else path);
               t = unwrapPtr ft
           in if Kind t \<noteq> KStruct then Join path' ''.''
              else nsLoop mapLower promoted segs t rest path'))"

definition yamlPathFromStructNS ::
  "(string \<Rightarrow> string) \<Rightarrow> (rtype \<Rightarrow> string \<Rightarrow> (sfield \<times> rtype) option) \<Rightarrow> string \<Rightarrow> rtype \<Rightarrow> string" where
  "yamlPathFromStructNS mapLower promoted ns root0 =
     (let root = unwrapPtr root0 in
      if Kind root \<noteq> KStruct \<or> ns = [] then []
      else
        (let segs0 = Split ns (CHR ''.'');
             segs = (case segs0 of
                       [] \<Rightarrow> segs0
                     | s0 # ss \<Rightarrow> if s0 = Name root then ss else segs0)
         in nsLoop mapLower promoted segs root segs []))"

text \<open>
  \<open>formatValidationIssues(err, root)\<close> reads only \<open>err.Error()\<close>, which is the argument
  \<open>msg\<close>; \<open>issueLines\<close> is its loop over the lines.
\<close>

fun issueLines ::
  "(string \<Rightarrow> string) \<Rightarrow> (rtype \<Rightarrow> string \<Rightarrow> (sfield \<times> rtype) option) \<Rightarrow> rtype \<Rightarrow> string list \<Rightarrow> string list" where
  "issueLines mapLower promoted root [] = []"
| "issueLines mapLower promoted root (p0 # parts) =
     (let p = TrimSpace p0 in
      if p = [] then issueLines mapLower promoted root parts
      else
        (let (field, rule) = extractFieldAndRule p in
         if field \<noteq> [] then
           (let yaml0 = yamlPathFromStructNS mapLower promoted field root;
                yaml = (if yaml0 = [] then field else yaml0)
            in (yaml @ '': '' @ rule) # issueLines mapLower promoted root parts)
         else p # issueLines mapLower promoted root parts))"

definition formatValidationIssues ::
  "(string \<Rightarrow> string) \<Rightarrow> (rtype \<Rightarrow> string \<Rightarrow> (sfield \<times> rtype) option) \<Rightarrow> string \<Rightarrow> rtype \<Rightarrow> string list" where
  "formatValidationIssues mapLower promoted msg root =
     issueLines mapLower promoted root (Split msg (CHR 0x0A))"

section \<open>Check\<close>

text \<open>
  What \<open>Check\<close> uses and this repository does not hold: the provider (package
  \<open>go.uber.org/config\<close>) and the validator (package \<open>go-playground/validator\<close>).
  \<^item> \<open>populate key t\<close> is \<open>p.Get(key).Populate(v)\<close> for a new value \<open>v\<close> of type \<open>t\<close>: the
    error's text, or the value bound;
  \<^item> \<open>populateRaw key\<close> is \<open>p.Get(key).Populate(&raw)\<close> for \<open>raw\<close> of type \<open>any\<close>;
  \<^item> \<open>validateStruct v\<close> is \<open>validate.Struct(v)\<close>: \<open>None\<close> for nil, or the error's text.
\<close>

record 'v provider =
  populate :: "string \<Rightarrow> rtype \<Rightarrow> string + 'v"
  populateRaw :: "string \<Rightarrow> string + dyn"

datatype check_error = PopulateError string | ValidationError string

record CheckResult =
  cr_Key :: string
  cr_Type :: string
  cr_OK :: bool
  cr_Err :: "check_error option"
  cr_Issues :: "string list"
  cr_Unknown :: "string list"

text \<open>The body of the loop of \<open>Check\<close>, for one entry of the snapshot.\<close>

definition checkEntry ::
  "(string \<Rightarrow> string) \<Rightarrow> (rtype \<Rightarrow> string \<Rightarrow> (sfield \<times> rtype) option) \<Rightarrow> ('v \<Rightarrow> string option) \<Rightarrow> 'v provider
     \<Rightarrow> reqEntry \<Rightarrow> CheckResult" where
  "checkEntry mapLower promoted validateStruct p r =
     (let (err, issues) =
            (case populate p (e_key r) (e_base r) of
               Inl e \<Rightarrow> (Some (PopulateError e), [])
             | Inr v \<Rightarrow>
                 (case validateStruct v of
                    None \<Rightarrow> (None, [])
                  | Some verr \<Rightarrow>
                      (Some (ValidationError verr),
                       formatValidationIssues mapLower promoted verr (e_base r))));
          raw = (case populateRaw p (e_key r) of Inl e \<Rightarrow> DNil | Inr y \<Rightarrow> y);
          unknown = findUnknownKeys mapLower raw (e_base r) [];
          ok = (err = None \<and> unknown = [])
      in \<lparr> cr_Key = e_key r, cr_Type = typeName (e_base r), cr_OK = ok, cr_Err = err,
           cr_Issues = issues, cr_Unknown = unknown \<rparr>)"

definition crLess :: "CheckResult \<Rightarrow> CheckResult \<Rightarrow> bool" where
  "crLess a b =
     (if cr_Key a = cr_Key b then cr_Type a < cr_Type b else cr_Key a < cr_Key b)"

text \<open>\<open>Check(p)\<close>: the snapshot is the list \<open>reqs\<close> at the time of the call.\<close>

definition Check ::
  "(string \<Rightarrow> string) \<Rightarrow> (rtype \<Rightarrow> string \<Rightarrow> (sfield \<times> rtype) option) \<Rightarrow> ('v \<Rightarrow> string option) \<Rightarrow> registry
     \<Rightarrow> 'v provider \<Rightarrow> CheckResult list" where
  "Check mapLower promoted validateStruct R p =
     (let snapshot = reqs R in
      SliceStable crLess (map (checkEntry mapLower promoted validateStruct p) snapshot))"

section \<open>Skeleton\<close>

text \<open>
  The values \<open>Skeleton\<close> stores in its tree are of two Go types: a placeholder is a
  \<open>string\<close> (\<open>SLeaf\<close>), an inner level is a value of the local type
  \<open>node\<close> (\<open>SNode\<close>), declared as \<open>type node map[string]interface{}\<close>. The type switch of
  \<open>renderNode\<close> has a case for the type \<open>map[string]interface{}\<close>; a value of that type is
  \<open>SMap\<close>. Go's type switch compares dynamic types for identity, and \<open>node\<close> is a defined
  type of its own, so a \<open>node\<close> takes the default case.
\<close>

datatype sval =
    SLeaf string
  | SNode "(string \<times> sval) list"
  | SMap "(string \<times> sval) list"

definition placeholderFor :: "(string \<Rightarrow> string) \<Rightarrow> FieldSpec \<Rightarrow> string" where
  "placeholderFor mapLower s =
     (let t = ToLower mapLower (fs_Type s);
          ph = (if t = ''string'' then [CHR 0x22, CHR 0x22]
                else if t \<in> set [''int'', ''int32'', ''int64'', ''uint'', ''uint32'', ''uint64'']
                  then ''0''
                else if t \<in> set [''float32'', ''float64''] then ''0.0''
                else if t = ''bool'' then ''false''
                else if Contains t ''duration'' then [CHR 0x22] @ ''1s'' @ [CHR 0x22]
                else ''<value>'')
      in if fs_Required s then ph @ ''  # required'' else ph)"

datatype skeleton_error = SpecError spec_error | NilMapAssignment

text \<open>
  The inner loop of \<open>Skeleton\<close> over the segments of one path, on the map \<open>cur\<close>; the
  result is that map after the loop. When an inner segment is already there and is not a
  \<open>node\<close>, the assertion \<open>cur[seg].(node)\<close> gives the nil map, and the next assignment
  to it panics: \<open>None\<close>.
\<close>

fun insertPath :: "string list \<Rightarrow> string \<Rightarrow> (string \<times> sval) list \<Rightarrow> (string \<times> sval) list option" where
  "insertPath [] ph cur = Some cur"
| "insertPath [seg] ph cur = Some (mapSet seg (SLeaf ph) cur)"
| "insertPath (seg # rest) ph cur =
     (case map_of cur seg of
        None \<Rightarrow> map_option (\<lambda>c. mapSet seg (SNode c) cur) (insertPath rest ph [])
      | Some (SNode nxt) \<Rightarrow> map_option (\<lambda>c. mapSet seg (SNode c) cur) (insertPath rest ph nxt)
      | Some other \<Rightarrow> None)"

text \<open>The outer loop, over the field specifications.\<close>

fun buildTree :: "(string \<Rightarrow> string) \<Rightarrow> FieldSpec list \<Rightarrow> (string \<times> sval) list \<Rightarrow> (string \<times> sval) list option" where
  "buildTree mapLower [] root = Some root"
| "buildTree mapLower (s # specs) root =
     (if fs_Path s = [] then buildTree mapLower specs root
      else (case insertPath (Split (fs_Path s) (CHR ''.'')) (placeholderFor mapLower s) root of
              None \<Rightarrow> None
            | Some root' \<Rightarrow> buildTree mapLower specs root'))"

text \<open>
  \<open>fmt.Fprint\<close> of a stored value: a string as it is, a map as \<open>map[k:v k:v]\<close> with the
  keys in sorted order.
\<close>

fun Fprint :: "sval \<Rightarrow> string" where
  "Fprint (SLeaf s) = s"
| "Fprint (SNode n) =
     ''map['' @ Join (map (\<lambda>(k, v). k @ '':'' @ Fprint v) (sort_key fst n)) '' '' @ '']''"
| "Fprint (SMap n) =
     ''map['' @ Join (map (\<lambda>(k, v). k @ '':'' @ Fprint v) (sort_key fst n)) '' '' @ '']''"

text \<open>
  \<open>renderNode(b, n, indent)\<close>: the text it writes to the builder. The entries are taken in
  the order of their sorted keys.
\<close>

fun renderNode :: "(string \<times> sval) list \<Rightarrow> nat \<Rightarrow> string" where
  "renderNode n indent =
     concat (map (\<lambda>(k, v).
        (case v of
           SMap vv \<Rightarrow> replicate indent (CHR '' '') @ k @ '':'' @ [CHR 0x0A]
                      @ renderNode vv (indent + 2)
         | _ \<Rightarrow> replicate indent (CHR '' '') @ k @ '': '' @ Fprint v @ [CHR 0x0A]))
       (sort_key fst n))"

definition Skeleton :: "(string \<Rightarrow> string) \<Rightarrow> registry \<Rightarrow> Requirement \<Rightarrow> skeleton_error + string" where
  "Skeleton mapLower R req =
     (case Spec mapLower R req of
        Inl err \<Rightarrow> Inl (SpecError err)
      | Inr specs \<Rightarrow>
          (case buildTree mapLower specs [] of
             None \<Rightarrow> Inl NilMapAssignment
           | Some root \<Rightarrow>
               Inr (if req_Key req \<noteq> []
                    then req_Key req @ '':'' @ [CHR 0x0A] @ renderNode root 2
                    else renderNode root 0)))"

section \<open>The invariant of the registry, and example types\<close>

text \<open>
  \<open>reqSeen\<close> holds the type keys of the entries of \<open>reqs\<close>, and no two entries have the
  same type key. The empty registry satisfies this, and registration keeps it.
\<close>

definition registry_inv :: "registry \<Rightarrow> bool" where
  "registry_inv R =
     (reqSeen R = set (map (\<lambda>e. typeKey (e_key e) (e_t e)) (reqs R))
      \<and> distinct (map (\<lambda>e. typeKey (e_key e) (e_t e)) (reqs R)))"

text \<open>
  The types of the examples: the descriptor \<open>{Host: string required, Port: int
  optional}\<close> of the specification, and a second type of the same name in another package.
\<close>

definition exampleField :: "string \<Rightarrow> string \<Rightarrow> string \<Rightarrow> sfield" where
  "exampleField n y v =
     \<lparr> fName = n, fPkgPath = [], fAnonymous = False, tagYaml = y, tagJson = [],
       tagValidate = v \<rparr>"

definition stringType :: rtype where "stringType = TBasic KString ''string'' [] ''string''"
definition intType :: rtype where "intType = TBasic KInt ''int'' [] ''int''"

definition dbConfig :: rtype where
  "dbConfig = TStruct ''Config'' ''example.com/app/db'' ''db.Config''
     [(exampleField ''Host'' ''host'' ''required'', stringType),
      (exampleField ''Port'' ''port'' [], intType)]"

definition cacheConfig :: rtype where
  "cacheConfig = TStruct ''Config'' ''example.com/app/cache'' ''cache.Config''
     [(exampleField ''Size'' ''size'' [], intType)]"

section \<open>Redaction, as the specification words it\<close>




section \<open>Messages of the validator, and an example provider\<close>

text \<open>
  A message has a line that is not blank. The messages of the validator the code uses are
  of this kind: one line per failed field, or one line naming the value it cannot validate.
\<close>

definition nonBlank :: "string \<Rightarrow> bool" where
  "nonBlank msg = list_ex (\<lambda>l. TrimSpace l \<noteq> []) (Split msg (CHR 0x0A))"

text \<open>
  The message of the validator for one failed field: the namespace of the field, its name
  and the rule, each in single quotes.
\<close>

definition fieldError :: "string \<Rightarrow> string \<Rightarrow> string \<Rightarrow> string" where
  "fieldError ns field rule =
     ''Key: '' @ [CHR 0x27] @ ns @ [CHR 0x27] @ '' Error:Field validation for '' @ [CHR 0x27]
     @ field @ [CHR 0x27] @ '' failed on the '' @ [CHR 0x27] @ rule @ [CHR 0x27] @ '' tag''"

text \<open>
  A stand-in for \<open>strings.Map(unicode.ToLower, s)\<close> in the examples, whose strings are all
  ASCII and never reach it.
\<close>

definition keepNonASCII :: "string \<Rightarrow> string" where
  "keepNonASCII s = s"

text \<open>A search through embedded structs that finds nothing, for types without any.\<close>

definition noPromotion :: "rtype \<Rightarrow> string \<Rightarrow> (sfield \<times> rtype) option" where
  "noPromotion t name = None"

text \<open>
  A provider whose document is \<open>db: {port: 5432, extra: true}\<close> and \<open>cache: 7\<close>: the
  subtree \<open>db\<close> binds, to an empty host and the port it holds, and the scalar at
  \<open>cache\<close> does not bind to a struct. The validator of the example reports the rule
  \<open>required\<close> on an empty host.
\<close>

definition exampleProvider :: "(string \<times> int) provider" where
  "exampleProvider =
     \<lparr> populate = (\<lambda>key t. if key = ''db'' then Inr ([], 5432) else Inl ''cannot bind''),
       populateRaw = (\<lambda>key. if key = ''db''
                            then Inr (DMapA [(KeyStr ''port'', DInt 5432),
                                             (KeyStr ''extra'', DBool True)])
                            else if key = ''cache'' then Inr (DInt 7)
                            else Inl ''no such key'') \<rparr>"

definition exampleValidator :: "string \<times> int \<Rightarrow> string option" where
  "exampleValidator v =
     (if fst v = [] then Some (fieldError ''Config.Host'' ''Host'' ''required'') else None)"

definition exampleRegistry :: registry where
  "exampleRegistry =
     registerRequirementType ''cache'' cacheConfig
       (registerRequirementType ''db'' dbConfig emptyRegistry)"

section \<open>More example types\<close>

text \<open>
  A config with a nested struct; a struct with an excluded struct field and an excluded
  leaf; and a struct that embeds, inline, a struct that itself embeds one inline.
\<close>

definition embeddedField :: "string \<Rightarrow> string \<Rightarrow> sfield" where
  "embeddedField n y =
     \<lparr> fName = n, fPkgPath = [], fAnonymous = True, tagYaml = y, tagJson = [],
       tagValidate = [] \<rparr>"

definition limitsType :: rtype where
  "limitsType = TStruct ''Limits'' ''example.com/app/svc'' ''svc.Limits''
     [(exampleField ''Value'' ''value'' ''min=1'', intType)]"

definition svcConfig :: rtype where
  "svcConfig = TStruct ''Config'' ''example.com/app/svc'' ''svc.Config''
     [(exampleField ''Foo'' ''foo'' ''required'', stringType),
      (exampleField ''Nested'' ''nested'' [], limitsType)]"

definition credsType :: rtype where
  "credsType = TStruct ''Creds'' ''example.com/app/svc'' ''svc.Creds''
     [(exampleField ''User'' ''user'' [], stringType)]"

definition serviceType :: rtype where
  "serviceType = TStruct ''Service'' ''example.com/app/svc'' ''svc.Service''
     [(exampleField ''Name'' ''name'' [], stringType),
      (exampleField ''Internal'' ''-'' [], credsType),
      (exampleField ''Note'' ''-'' [], stringType)]"

definition innerType :: rtype where
  "innerType = TStruct ''Inner'' ''example.com/app/svc'' ''svc.Inner''
     [(exampleField ''C'' ''c'' [], intType)]"

definition midType :: rtype where
  "midType = TStruct ''Mid'' ''example.com/app/svc'' ''svc.Mid''
     [(embeddedField ''Inner'' '',inline'', innerType),
      (exampleField ''D'' ''d'' [], intType)]"

definition outerType :: rtype where
  "outerType = TStruct ''Outer'' ''example.com/app/svc'' ''svc.Outer''
     [(embeddedField ''Mid'' '',inline'', midType)]"

section \<open>Document paths\<close>

text \<open>
  The document path of a Go field path, read off the type: each name is looked up among the
  fields of the struct reached so far, a field that is not inline adds its external name,
  and the walk ends at the first field that is not a struct. \<open>goPath\<close> is the Go field
  path of a namespace: its segments, without a leading name of the root type.
\<close>

fun docPath :: "(string \<Rightarrow> string) \<Rightarrow> rtype \<Rightarrow> string list \<Rightarrow> string list option" where
  "docPath mapLower cur [] = Some []"
| "docPath mapLower cur (name # rest) =
     (if name = [] then None
      else (case find (\<lambda>(f, ft). fName f = name) (Fields cur) of
              None \<Rightarrow> None
            | Some (f, ft) \<Rightarrow>
                (let (y, inline) = parseYAMLTag mapLower (tagYaml f) f;
                     here = (if inline then [] else [y]);
                     t = unwrapPtr ft
                 in if Kind t \<noteq> KStruct then Some here
                    else map_option (\<lambda>further. here @ further) (docPath mapLower t rest))))"

definition goPath :: "string \<Rightarrow> rtype \<Rightarrow> string list" where
  "goPath ns root =
     (case Split ns (CHR ''.'') of
        [] \<Rightarrow> []
      | s0 # ss \<Rightarrow> if s0 = Name (unwrapPtr root) then ss else s0 # ss)"

section \<open>Unique names\<close>

text \<open>
  A path under a prefix, as \<open>walkStruct\<close> builds it.
\<close>

definition joinPath :: "string \<Rightarrow> string \<Rightarrow> string" where
  "joinPath pfx name = (if pfx = [] then name else pfx @ ''.'' @ name)"

text \<open>
  The names of one level of a type: for each exported field its external name, the names
  of an inline struct taking the place of the struct itself, and \<open>None\<close> for an inline
  field that is not a struct (its path is the prefix itself). A name is in order when it
  is not empty and has no dot.
\<close>

fun segOK :: "string option \<Rightarrow> bool" where
  "segOK None = True"
| "segOK (Some n) = (n \<noteq> [] \<and> CHR ''.'' \<notin> set n)"

lemma size_Fields: "size_list (size_prod (\<lambda>_. 0) size) (Fields t) \<le> size t"
  by (cases t) auto

lemma size_Fields_unwrapPtr:
  "size_list (size_prod (\<lambda>_. 0) size) (Fields (unwrapPtr ft))
   < size_list (size_prod (\<lambda>_. 0) size) ((f, ft) # fs)"
  using size_Fields [of "unwrapPtr ft"] size_unwrapPtr [of ft] by simp

function levelNames :: "(string \<Rightarrow> string) \<Rightarrow> (sfield \<times> rtype) list \<Rightarrow> string option list" where
  "levelNames mapLower [] = []"
| "levelNames mapLower ((f, ft) # fs) =
     (if fPkgPath f \<noteq> [] then levelNames mapLower fs
      else
        (let (name, inline) = parseYAMLTag mapLower (tagYaml f) f;
             base = unwrapPtr ft
         in (if Kind base = KStruct
             then (if inline then levelNames mapLower (Fields base) else [Some name])
             else if name = ''-'' then []
             else [if inline then None else Some name])
            @ levelNames mapLower fs))"
  by pat_completeness auto

termination
proof (relation "measure (\<lambda>(_, fs). size_list (size_prod (\<lambda>_. 0) size) fs)", goal_cases)
  case 1
  show ?case by simp
next
  case (2 mapLower f ft fs)
  then show ?case by simp
next
  case (3 mapLower f ft fs x name inline base)
  then show ?case using size_Fields_unwrapPtr [of ft f fs] by simp
next
  case (4 mapLower f ft fs x name inline base)
  then show ?case by simp
qed

text \<open>
  The levels below a list of fields are in order: every struct that opens a level of its
  own has names that are pairwise different and in order, and so on below it.
\<close>

function uniqueBelow :: "(string \<Rightarrow> string) \<Rightarrow> (sfield \<times> rtype) list \<Rightarrow> bool" where
  "uniqueBelow mapLower [] = True"
| "uniqueBelow mapLower ((f, ft) # fs) =
     (if fPkgPath f \<noteq> [] then uniqueBelow mapLower fs
      else
        (let (name, inline) = parseYAMLTag mapLower (tagYaml f) f;
             base = unwrapPtr ft
         in (if Kind base = KStruct
             then (if inline then uniqueBelow mapLower (Fields base)
                   else distinct (levelNames mapLower (Fields base))
                        \<and> list_all segOK (levelNames mapLower (Fields base))
                        \<and> uniqueBelow mapLower (Fields base))
             else True)
            \<and> uniqueBelow mapLower fs))"
  by pat_completeness auto

termination
proof (relation "measure (\<lambda>(_, fs). size_list (size_prod (\<lambda>_. 0) size) fs)", goal_cases)
  case 1
  show ?case by simp
next
  case (2 mapLower f ft fs)
  then show ?case by simp
next
  case (3 mapLower f ft fs x name inline base)
  then show ?case using size_Fields_unwrapPtr [of ft f fs] by simp
next
  case (4 mapLower f ft fs x name inline base)
  then show ?case using size_Fields_unwrapPtr [of ft f fs] by simp
next
  case (5 mapLower f ft fs x name inline base)
  then show ?case by simp
qed

text \<open>
  The condition on a type under which the paths are unique. \<open>walkStruct\<close> does not
  check it.
\<close>

definition namesUnique :: "(string \<Rightarrow> string) \<Rightarrow> rtype \<Rightarrow> bool" where
  "namesUnique mapLower t0 =
     (let t = (if Kind t0 = KPtr then Elem t0 else t0) in
      distinct (levelNames mapLower (Fields t)) \<and> list_all segOK (levelNames mapLower (Fields t))
      \<and> uniqueBelow mapLower (Fields t))"

text \<open>
  A path lies under a name of the level: it is the name's path, or extends it by a dot.
\<close>

fun under :: "string \<Rightarrow> string option \<Rightarrow> string \<Rightarrow> bool" where
  "under pfx None p = (p = pfx)"
| "under pfx (Some n) p = (p = joinPath pfx n \<or> prefix (joinPath pfx n @ ''.'') p)"


text \<open>
  A struct with a field named \<open>c\<close> that also embeds, inline, a struct with a field
  named \<open>c\<close>.
\<close>

definition inlineCollision :: rtype where
  "inlineCollision = TStruct ''Config'' ''example.com/app/svc'' ''svc.Config''
     [(embeddedField ''Inner'' '',inline'', innerType),
      (exampleField ''Count'' ''c'' [], intType)]"

section \<open>Sorting\<close>

lemma insertStable_insort_key:
  assumes "\<And>a b. lt a b \<longleftrightarrow> f a < (f b :: 'k :: linorder)"
  shows "insertStable lt x ys = insort_key f x ys"
  using assms by (induction ys) (auto simp: not_less)

lemma SliceStable_sort_key:
  assumes "\<And>a b. lt a b \<longleftrightarrow> f a < (f b :: 'k :: linorder)"
  shows "SliceStable lt xs = sort_key f xs"
  unfolding SliceStable_def sort_key_def
  using insertStable_insort_key [of lt f, OF assms] by (induction xs) auto

lemma reqLess_key: "reqLess a b \<longleftrightarrow> (req_Key a, req_Type a) < (req_Key b, req_Type b)"
  by (auto simp: reqLess_def less_prod_def')

lemma crLess_key: "crLess a b \<longleftrightarrow> (cr_Key a, cr_Type a) < (cr_Key b, cr_Type b)"
  by (auto simp: crLess_def less_prod_def')

lemma Requirements_sort_key:
  "fst (Requirements R) = sort_key (\<lambda>r. (req_Key r, req_Type r)) (map toRequirement (reqs R))"
  unfolding Requirements_def fst_conv
  by (rule SliceStable_sort_key) (rule reqLess_key)

lemma Check_sort_key:
  "Check mapLower promoted validateStruct R p =
     sort_key (\<lambda>c. (cr_Key c, cr_Type c)) (map (checkEntry mapLower promoted validateStruct p) (reqs R))"
  unfolding Check_def Let_def
  by (rule SliceStable_sort_key) (rule crLess_key)

lemma length_Requirements: "length (fst (Requirements R)) = length (reqs R)"
  by (simp add: Requirements_sort_key)

lemma registry_inv_empty: "registry_inv emptyRegistry"
  by (simp add: registry_inv_def emptyRegistry_def)

lemma registry_inv_register:
  "registry_inv R \<Longrightarrow> registry_inv (registerRequirementType k T R)"
  by (auto simp: registry_inv_def registerRequirementType_def Let_def)

lemma register_twice:
  "registerRequirementType k T (registerRequirementType k T R) = registerRequirementType k T R"
  by (simp add: registerRequirementType_def Let_def)

lemma register_seen:
  "typeKey k T \<in> reqSeen (registerRequirementType k T R)"
  by (simp add: registerRequirementType_def Let_def)

lemma distinct_count_one:
  "distinct (map f xs) \<Longrightarrow> a \<in> set (map f xs) \<Longrightarrow> length (filter (\<lambda>x. f x = a) xs) = 1"
proof (induction xs)
  case Nil
  then show ?case by simp
next
  case (Cons x xs)
  show ?case
  proof (cases "f x = a")
    case True
    with Cons.prems have "a \<notin> f ` set xs" by simp
    then have "filter (\<lambda>x. f x = a) xs = []"
      unfolding filter_empty_conv by blast
    with True show ?thesis by simp
  next
    case False
    with Cons show ?thesis by auto
  qed
qed

lemma register_new:
  "typeKey k T \<notin> reqSeen R \<Longrightarrow>
   registerRequirementType k T R =
     R\<lparr> reqSeen := insert (typeKey k T) (reqSeen R),
        reqs := reqs R @ [\<lparr> e_key = k, e_t = T, e_base = unwrapPtr T \<rparr>] \<rparr>"
  by (simp add: registerRequirementType_def Let_def)

lemma typeKey_same_key: "typeKey k T1 = typeKey k T2 \<longleftrightarrow> String_of T1 = String_of T2"
  by (simp add: typeKey_def)

text \<open>
  Claim C2. Registration is idempotent and deduplicates by the pair of key and signature
  (the string form of the registered type): registering a pair again changes nothing, so
  that exactly one entry carries its type key, and \<open>Requirements\<close> has one element per
  entry; registering one key with two types of different string forms, neither seen before,
  adds two entries.
\<close>

theorem C2_registration_dedup:
  assumes "registry_inv R"
  shows "registerRequirementType k T (registerRequirementType k T R) = registerRequirementType k T R
       \<and> registry_inv (registerRequirementType k T R)
       \<and> length (filter (\<lambda>e. typeKey (e_key e) (e_t e) = typeKey k T)
            (reqs (registerRequirementType k T (registerRequirementType k T R)))) = 1
       \<and> length (fst (Requirements (registerRequirementType k T (registerRequirementType k T R))))
           = length (reqs (registerRequirementType k T R))
       \<and> (String_of T1 \<noteq> String_of T2 \<and> typeKey k T1 \<notin> reqSeen R \<and> typeKey k T2 \<notin> reqSeen R
            \<longrightarrow> length (fst (Requirements
                   (registerRequirementType k T2 (registerRequirementType k T1 R))))
                 = length (fst (Requirements R)) + 2)"
proof -
  let ?R1 = "registerRequirementType k T R"
  have inv1: "registry_inv ?R1" using assms by (rule registry_inv_register)
  have cnt: "length (filter (\<lambda>e. typeKey (e_key e) (e_t e) = typeKey k T) (reqs ?R1)) = 1"
  proof (rule distinct_count_one)
    show "distinct (map (\<lambda>e. typeKey (e_key e) (e_t e)) (reqs ?R1))"
      using inv1 by (simp add: registry_inv_def)
    show "typeKey k T \<in> set (map (\<lambda>e. typeKey (e_key e) (e_t e)) (reqs ?R1))"
      using inv1 register_seen [of k T R] by (simp add: registry_inv_def)
  qed
  have two: "length (fst (Requirements
                   (registerRequirementType k T2 (registerRequirementType k T1 R))))
                 = length (fst (Requirements R)) + 2"
    if "String_of T1 \<noteq> String_of T2" "typeKey k T1 \<notin> reqSeen R" "typeKey k T2 \<notin> reqSeen R"
  proof -
    have "typeKey k T2 \<notin> reqSeen (registerRequirementType k T1 R)"
      using that by (simp add: register_new typeKey_same_key)
    then show ?thesis using that
      by (simp add: length_Requirements register_new)
  qed
  show ?thesis
    using inv1 cnt two by (simp add: register_twice length_Requirements)
qed

theorem C2_registration_dedup_witness:
  "registry_inv emptyRegistry
   \<and> length (fst (Requirements
        (registerRequirementType ''db'' dbConfig
          (registerRequirementType ''db'' dbConfig emptyRegistry)))) = 1
   \<and> length (fst (Requirements
        (registerRequirementType ''db'' cacheConfig
          (registerRequirementType ''db'' dbConfig emptyRegistry)))) = 2"
proof -
  have inv: "registry_inv emptyRegistry" by (rule registry_inv_empty)
  have s: "String_of dbConfig \<noteq> String_of cacheConfig"
    by (simp add: dbConfig_def cacheConfig_def)
  have n: "reqSeen emptyRegistry = {}" "reqs emptyRegistry = []"
    by (simp_all add: emptyRegistry_def)
  show ?thesis
    using inv s n C2_registration_dedup [OF inv, of "''db''" dbConfig dbConfig cacheConfig]
    by (simp add: register_new length_Requirements)
qed

text \<open>
  Claim C3. The lists \<open>Requirements\<close> and \<open>Check\<close> return are sorted by the pair of key
  and type name, in the lexicographic order of the pair; \<open>Requirements\<close> leaves the
  registry as it is, so a second call returns the same list.
\<close>

theorem C3_outputs_sorted_and_repeatable:
  "sorted (map (\<lambda>r. (req_Key r, req_Type r)) (fst (Requirements R)))
   \<and> sorted (map (\<lambda>c. (cr_Key c, cr_Type c)) (Check mapLower promoted validateStruct R p))
   \<and> snd (Requirements R) = R
   \<and> fst (Requirements (snd (Requirements R))) = fst (Requirements R)"
proof -
  have "snd (Requirements R) = R" by (simp add: Requirements_def)
  then show ?thesis
    by (simp add: Requirements_sort_key Check_sort_key)
qed

text \<open>
  Claim C10. The type key holds the string form of the registered type, which differs
  between \<open>T\<close> and \<open>*T\<close>, while \<open>Requirements\<close> shows the type with its pointers
  removed: registering \<open>(k, T)\<close> and then \<open>(k, *T)\<close> gives two elements of
  \<open>Requirements\<close> with the same key, type name and package path.
\<close>

theorem C10_pointer_and_base_registered_apart:
  "typeKey k (TPtr T) \<noteq> typeKey k T
   \<and> fst (Requirements (registerRequirementType k (TPtr T)
            (registerRequirementType k T emptyRegistry)))
       = [\<lparr> req_Key = k, req_Type = typeName (unwrapPtr T), req_PkgPath = PkgPath (unwrapPtr T) \<rparr>,
          \<lparr> req_Key = k, req_Type = typeName (unwrapPtr T), req_PkgPath = PkgPath (unwrapPtr T) \<rparr>]
   \<and> (typeKey k T \<notin> reqSeen R \<and> typeKey k (TPtr T) \<notin> reqSeen R \<longrightarrow>
        map toRequirement (reqs (registerRequirementType k (TPtr T) (registerRequirementType k T R)))
          = map toRequirement (reqs R)
            @ [\<lparr> req_Key = k, req_Type = typeName (unwrapPtr T), req_PkgPath = PkgPath (unwrapPtr T) \<rparr>,
               \<lparr> req_Key = k, req_Type = typeName (unwrapPtr T), req_PkgPath = PkgPath (unwrapPtr T) \<rparr>]
        \<and> length (fst (Requirements
             (registerRequirementType k (TPtr T) (registerRequirementType k T R))))
           = length (fst (Requirements R)) + 2)"
proof -
  have ne: "typeKey k (TPtr T) \<noteq> typeKey k T"
    by (simp add: typeKey_def)
  have gen: "reqs (registerRequirementType k (TPtr T) (registerRequirementType k T R'))
           = reqs R' @ [\<lparr> e_key = k, e_t = T, e_base = unwrapPtr T \<rparr>,
                        \<lparr> e_key = k, e_t = TPtr T, e_base = unwrapPtr T \<rparr>]"
    if "typeKey k T \<notin> reqSeen R'" "typeKey k (TPtr T) \<notin> reqSeen R'" for R'
  proof -
    have "typeKey k (TPtr T) \<notin> reqSeen (registerRequirementType k T R')"
      using that ne by (simp add: register_new)
    then show ?thesis using that by (simp add: register_new)
  qed
  have e: "reqs (registerRequirementType k (TPtr T) (registerRequirementType k T emptyRegistry))
           = [\<lparr> e_key = k, e_t = T, e_base = unwrapPtr T \<rparr>,
              \<lparr> e_key = k, e_t = TPtr T, e_base = unwrapPtr T \<rparr>]"
    using gen [of emptyRegistry] by (simp add: emptyRegistry_def)
  have first: "fst (Requirements (registerRequirementType k (TPtr T)
            (registerRequirementType k T emptyRegistry)))
       = [\<lparr> req_Key = k, req_Type = typeName (unwrapPtr T), req_PkgPath = PkgPath (unwrapPtr T) \<rparr>,
          \<lparr> req_Key = k, req_Type = typeName (unwrapPtr T), req_PkgPath = PkgPath (unwrapPtr T) \<rparr>]"
    by (simp add: Requirements_def e SliceStable_def toRequirement_def reqLess_def)
  show ?thesis
    using ne first gen [of R] by (simp add: length_Requirements toRequirement_def)
qed

theorem C10_pointer_and_base_registered_apart_witness:
  "fst (Requirements (registerRequirementType ''db'' (TPtr dbConfig)
            (registerRequirementType ''db'' dbConfig emptyRegistry)))
     = [\<lparr> req_Key = ''db'', req_Type = ''db.Config'', req_PkgPath = ''example.com/app/db'' \<rparr>,
        \<lparr> req_Key = ''db'', req_Type = ''db.Config'', req_PkgPath = ''example.com/app/db'' \<rparr>]
   \<and> length (fst (Requirements (registerRequirementType ''db'' (TPtr dbConfig)
            (registerRequirementType ''db'' dbConfig
               (registerRequirementType ''cache'' cacheConfig emptyRegistry))))) = 3"
proof -
  have t: "typeName (unwrapPtr dbConfig) = ''db.Config''"
          "PkgPath (unwrapPtr dbConfig) = ''example.com/app/db''"
    by (simp_all add: typeName_def dbConfig_def)
  let ?R = "registerRequirementType ''cache'' cacheConfig emptyRegistry"
  have R: "reqSeen ?R = {typeKey ''cache'' cacheConfig}" "length (reqs ?R) = 1"
    by (simp_all add: register_new emptyRegistry_def)
  have n: "typeKey ''db'' dbConfig \<notin> reqSeen ?R" "typeKey ''db'' (TPtr dbConfig) \<notin> reqSeen ?R"
    unfolding R by (simp_all add: typeKey_def)
  show ?thesis
    using C10_pointer_and_base_registered_apart [of "''db''" dbConfig ?R] t n R(2)
    by (simp add: length_Requirements)
qed

section \<open>Redaction\<close>











text \<open>
  A key with a byte from 128 on is lowered by the Unicode path: where that gives a secret
  word (as for \<open>to\<close>, the Kelvin sign, \<open>en\<close>), the key is secret.
\<close>

lemma isSecretKey_unicode_path:
  "\<not> list_all (\<lambda>c. (of_char c :: nat) < 128) k \<Longrightarrow> mapLower k = ''token'' \<Longrightarrow>
   isSecretKey mapLower k"
  by (simp add: isSecretKey_def ToLower_def secretWords_def)



section \<open>Check\<close>

lemma length_issueLines:
  "length (issueLines mapLower promoted root parts) = length (filter (\<lambda>l. TrimSpace l \<noteq> []) parts)"
  by (induction parts) (auto simp: Let_def split: prod.splits)

lemma formatValidationIssues_empty:
  "formatValidationIssues mapLower promoted msg root = [] \<longleftrightarrow> \<not> nonBlank msg"
proof -
  have "formatValidationIssues mapLower promoted msg root = []
        \<longleftrightarrow> filter (\<lambda>l. TrimSpace l \<noteq> []) (Split msg (CHR 0x0A)) = []"
    unfolding formatValidationIssues_def
    using length_issueLines [of mapLower promoted root "Split msg (CHR 0x0A)"]
    by (metis length_0_conv)
  then show ?thesis
    by (simp add: nonBlank_def filter_empty_conv list_ex_iff)
qed

lemma mset_SliceStable_cr:
  "mset (Check mapLower promoted validateStruct R p)
     = mset (map (checkEntry mapLower promoted validateStruct p) (reqs R))"
  by (simp add: Check_sort_key)

text \<open>
  Claim C1. \<open>Check\<close> is total and returns the results of the entries of the snapshot,
  one for each, in sorted order: each result carries the key and the type name of its
  entry, a bind failure is stored in the result with no issue, a validation failure is
  stored with the issues made from its message, and \<open>ok\<close> holds exactly when no error is
  stored and no unknown key was found. The validator's messages never being blank, that
  is exactly when the subtree bound, no issue was recorded and no unknown key was found.
\<close>

theorem C1_check_one_result_per_requirement:
  assumes "\<And>v msg. validateStruct v = Some msg \<Longrightarrow> nonBlank msg"
  shows "length (Check mapLower promoted validateStruct R p) = length (reqs R)
       \<and> mset (Check mapLower promoted validateStruct R p)
           = mset (map (checkEntry mapLower promoted validateStruct p) (reqs R))
       \<and> cr_Key (checkEntry mapLower promoted validateStruct p r) = e_key r
       \<and> cr_Type (checkEntry mapLower promoted validateStruct p r) = typeName (e_base r)
       \<and> cr_Unknown (checkEntry mapLower promoted validateStruct p r)
           = findUnknownKeys mapLower (case populateRaw p (e_key r) of Inl e \<Rightarrow> DNil | Inr y \<Rightarrow> y)
               (e_base r) []
       \<and> (\<forall>e. populate p (e_key r) (e_base r) = Inl e \<longrightarrow>
              cr_Err (checkEntry mapLower promoted validateStruct p r) = Some (PopulateError e)
              \<and> cr_Issues (checkEntry mapLower promoted validateStruct p r) = [])
       \<and> (\<forall>v msg. populate p (e_key r) (e_base r) = Inr v \<and> validateStruct v = Some msg \<longrightarrow>
              cr_Err (checkEntry mapLower promoted validateStruct p r) = Some (ValidationError msg)
              \<and> cr_Issues (checkEntry mapLower promoted validateStruct p r)
                  = formatValidationIssues mapLower promoted msg (e_base r))
       \<and> (cr_OK (checkEntry mapLower promoted validateStruct p r)
            \<longleftrightarrow> cr_Err (checkEntry mapLower promoted validateStruct p r) = None
                \<and> cr_Unknown (checkEntry mapLower promoted validateStruct p r) = [])
       \<and> (cr_OK (checkEntry mapLower promoted validateStruct p r)
            \<longleftrightarrow> (\<exists>v. populate p (e_key r) (e_base r) = Inr v)
                \<and> cr_Issues (checkEntry mapLower promoted validateStruct p r) = []
                \<and> cr_Unknown (checkEntry mapLower promoted validateStruct p r) = [])"
proof -
  let ?c = "checkEntry mapLower promoted validateStruct p r"
  have len: "length (Check mapLower promoted validateStruct R p) = length (reqs R)"
    by (simp add: Check_sort_key)
  have ok: "cr_OK ?c \<longleftrightarrow> (\<exists>v. populate p (e_key r) (e_base r) = Inr v)
                \<and> cr_Issues ?c = [] \<and> cr_Unknown ?c = []"
  proof (cases "populate p (e_key r) (e_base r)")
    case (Inl e)
    then show ?thesis by (simp add: checkEntry_def Let_def)
  next
    case (Inr v)
    show ?thesis
    proof (cases "validateStruct v")
      case None
      with Inr show ?thesis by (simp add: checkEntry_def Let_def)
    next
      case (Some msg)
      then have "formatValidationIssues mapLower promoted msg (e_base r) \<noteq> []"
        using assms by (simp add: formatValidationIssues_empty)
      with Inr Some show ?thesis by (simp add: checkEntry_def Let_def)
    qed
  qed
  show ?thesis
    using len ok
    by (auto simp: mset_SliceStable_cr checkEntry_def Let_def split: sum.splits option.splits)
qed

theorem C1_check_one_result_per_requirement_witness:
  "map (\<lambda>c. (cr_Key c, cr_OK c, cr_Err c, cr_Issues c, cr_Unknown c))
     (Check keepNonASCII noPromotion exampleValidator exampleRegistry exampleProvider)
     = [(''cache'', False, Some (PopulateError ''cannot bind''), [], []),
        (''db'', False,
         Some (ValidationError (fieldError ''Config.Host'' ''Host'' ''required'')),
         [''host: required''], [''extra''])]
   \<and> length (Check keepNonASCII noPromotion exampleValidator exampleRegistry exampleProvider)
       = length (reqs exampleRegistry)"
proof -
  have nb: "nonBlank (fieldError ''Config.Host'' ''Host'' ''required'')"
    by code_simp
  have h: "\<And>v msg. exampleValidator v = Some msg \<Longrightarrow> nonBlank msg"
    using nb by (auto simp: exampleValidator_def split: if_splits)
  have e: "map (\<lambda>c. (cr_Key c, cr_OK c, cr_Err c, cr_Issues c, cr_Unknown c))
     (Check keepNonASCII noPromotion exampleValidator exampleRegistry exampleProvider)
     = [(''cache'', False, Some (PopulateError ''cannot bind''), [], []),
        (''db'', False,
         Some (ValidationError (fieldError ''Config.Host'' ''Host'' ''required'')),
         [''host: required''], [''extra''])]"
    by code_simp
  show ?thesis
    using C1_check_one_result_per_requirement
            [of exampleValidator keepNonASCII noPromotion exampleRegistry exampleProvider, OF h] e
    by simp
qed

section \<open>Field specifications\<close>

text \<open>
  Claim C6. \<open>Spec\<close> omits an excluded leaf, but not an excluded field whose type is a
  struct: \<open>walkStruct\<close> tests the name \<open>-\<close> only where it records a leaf, and walks into
  the struct \<open>Internal\<close> with \<open>-\<close> as a path segment.
\<close>

theorem C6_excluded_struct_field_is_walked:
  "Spec mapLower (registerRequirementType ''svc'' serviceType emptyRegistry)
        \<lparr> req_Key = ''svc'', req_Type = ''svc.Service'', req_PkgPath = ''example.com/app/svc'' \<rparr>
     = Inr [\<lparr> fs_Path = ''name'', fs_Type = ''string'', fs_Required = False \<rparr>,
            \<lparr> fs_Path = ''-.user'', fs_Type = ''string'', fs_Required = False \<rparr>]"
  by code_simp

section \<open>Skeleton\<close>

text \<open>
  Claim C7. The skeleton of the specification's example is rendered as the claim says. A
  nested level is not: it is stored as a value of the type \<open>node\<close>, which the case
  \<open>map[string]interface{}\<close> of \<open>renderNode\<close> does not match, so it is printed on one
  line in Go's map notation instead of as an indented block. The placeholder \<open>0\<close> is
  given to six of the integer kinds; \<open>int16\<close> is not one of them.
\<close>

theorem C7_nested_level_printed_as_go_map:
  "Skeleton mapLower (registerRequirementType ''db'' dbConfig emptyRegistry)
        \<lparr> req_Key = ''db'', req_Type = ''db.Config'', req_PkgPath = ''example.com/app/db'' \<rparr>
     = Inr (''db:'' @ [CHR 0x0A]
            @ ''  host: '' @ [CHR 0x22, CHR 0x22] @ ''  # required'' @ [CHR 0x0A]
            @ ''  port: 0'' @ [CHR 0x0A])
   \<and> Skeleton mapLower (registerRequirementType ''svc'' svcConfig emptyRegistry)
        \<lparr> req_Key = ''svc'', req_Type = ''svc.Config'', req_PkgPath = ''example.com/app/svc'' \<rparr>
     = Inr (''svc:'' @ [CHR 0x0A]
            @ ''  foo: '' @ [CHR 0x22, CHR 0x22] @ ''  # required'' @ [CHR 0x0A]
            @ ''  nested: map[value:0]'' @ [CHR 0x0A])
   \<and> placeholderFor mapLower \<lparr> fs_Path = ''retries'', fs_Type = ''int16'', fs_Required = False \<rparr>
     = ''<value>''"
  by code_simp

section \<open>Unknown keys\<close>

text \<open>
  Claim C4. The names of an inline struct are promoted one level only: a name of an inline
  struct inside an inline struct is not in the allowed set, and the key \<open>c\<close>, which
  \<open>Spec\<close> lists as a field path of the type, is reported as unknown.
\<close>

theorem C4_nested_inline_names_reported_unknown:
  "findUnknownKeys mapLower (DMapA [(KeyStr ''c'', DInt 1), (KeyStr ''d'', DInt 2)]) outerType []
     = [''c'']
   \<and> map fs_Path (walkStruct mapLower outerType []) = [''c'', ''d'']"
  by code_simp

text \<open>
  What holds of the scan: its result is sorted, a value that is not a mapping gives
  nothing, the value at a field that is not a struct (a map, a slice) is never looked into,
  and a key of the mapping that is not an allowed name is reported under the prefix.
\<close>

lemma findUnknownKeys_sorted: "sorted (findUnknownKeys mapLower y t pfx)"
  by (simp add: Let_def split: option.splits)

lemma findUnknownKeys_not_mapping: "toMii y = None \<Longrightarrow> findUnknownKeys mapLower y t pfx = []"
  by (simp add: Let_def)

lemma scanKeys_non_struct_field:
  "map_of allowed (Sprint k) = Some (f, ft) \<Longrightarrow> Kind (unwrapPtr ft) \<noteq> KStruct \<Longrightarrow>
   scanKeys mapLower ((k, v) # mii) allowed pfx = scanKeys mapLower mii allowed pfx"
  by (simp add: Let_def)

lemma scanKeys_unknown_key:
  "(k, v) \<in> set mii \<Longrightarrow> map_of allowed (Sprint k) = None \<Longrightarrow>
   (if pfx = [] then Sprint k else pfx @ ''.'' @ Sprint k) \<in> set (scanKeys mapLower mii allowed pfx)"
  by (induction mii) (auto simp: Let_def)

section \<open>Validation issues\<close>

text \<open>
  What holds of the path mapping: when each segment of a namespace (a leading name of the
  root type dropped) names a field of the struct reached so far, \<open>yamlPathFromStructNS\<close>
  returns the external names of those fields joined by dots, an inline field adding none.
\<close>

lemma nsLoop_docPath:
  "docPath mapLower cur rest = Some further \<Longrightarrow>
   nsLoop mapLower promoted segs cur rest path = Join (path @ further) ''.''"
proof (induction rest arbitrary: cur path further)
  case Nil
  then show ?case by simp
next
  case (Cons name rest)
  from Cons.prems obtain f ft where
    ne: "name \<noteq> []" and fd: "find (\<lambda>(f, ft). fName f = name) (Fields cur) = Some (f, ft)"
    by (auto split: if_splits option.splits)
  have fb: "FieldByName promoted cur name = Some (f, ft)"
    using ne fd by (simp add: FieldByName_def)
  obtain y inline where p: "parseYAMLTag mapLower (tagYaml f) f = (y, inline)"
    by (cases "parseYAMLTag mapLower (tagYaml f) f")
  show ?case
  proof (cases "Kind (unwrapPtr ft) = KStruct")
    case True
    with Cons.prems ne fd p obtain m where
      m: "docPath mapLower (unwrapPtr ft) rest = Some m" "further = (if inline then [] else [y]) @ m"
      by (auto simp: Let_def)
    show ?thesis
      using Cons.IH [OF m(1)] m(2) fb p True by (simp add: Let_def)
  next
    case False
    with Cons.prems ne fd p have "further = (if inline then [] else [y])"
      by (auto simp: Let_def)
    with fb p False show ?thesis by (simp add: Let_def)
  qed
qed

lemma yamlPath_goPath:
  "yamlPathFromStructNS mapLower promoted ns root =
     (if Kind (unwrapPtr root) \<noteq> KStruct \<or> ns = [] then []
      else nsLoop mapLower promoted (goPath ns root) (unwrapPtr root) (goPath ns root) [])"
  by (cases "Split ns (CHR ''.'')")
     (simp_all add: yamlPathFromStructNS_def goPath_def Let_def del: nsLoop.simps)

lemma yamlPath_resolved:
  assumes "Kind (unwrapPtr root) = KStruct" "ns \<noteq> []"
    and "docPath mapLower (unwrapPtr root) (goPath ns root) = Some path"
  shows "yamlPathFromStructNS mapLower promoted ns root = Join path ''.''"
  using assms(1,2) nsLoop_docPath [OF assms(3), of promoted "goPath ns root" "[]"]
  by (simp add: yamlPath_goPath del: nsLoop.simps)

text \<open>
  Claim C5. The validator's sentence for the field \<open>Value\<close> of the nested struct has the
  namespace \<open>Config.Nested.Value\<close> in its first pair of quotes and the field's own name
  \<open>Value\<close> after the marker \<open>Field validation for\<close>. \<open>extractFieldAndRule\<close> reads the
  text after the marker, \<open>Value\<close> is no field of the root type, and the issue carries
  the Go name: \<open>Value: min\<close>. The document path of the field is \<open>nested.value\<close>, which
  is what \<open>yamlPathFromStructNS\<close> returns for the namespace and what \<open>walkStruct\<close> lists.
\<close>

theorem C5_nested_field_reported_by_go_name:
  "formatValidationIssues mapLower promoted
     (fieldError ''Config.Nested.Value'' ''Value'' ''min'') svcConfig = [''Value: min'']
   \<and> map fs_Path (walkStruct mapLower svcConfig []) = [''foo'', ''nested.value'']"
  by code_simp

lemma yamlPath_of_nested_namespace:
  "yamlPathFromStructNS mapLower promoted ''Config.Nested.Value'' svcConfig = ''nested.value''"
  by code_simp

section \<open>Unique paths\<close>

lemma walkStruct_struct:
  "Kind t = KStruct \<Longrightarrow> walkStruct mapLower t pfx = walkFields mapLower (Fields t) pfx"
  by (cases t) simp_all

lemma walkFields_unexported:
  "fPkgPath f \<noteq> [] \<Longrightarrow> walkFields mapLower ((f, ft) # fs) pfx = walkFields mapLower fs pfx"
  by simp

lemma walkFields_struct:
  assumes "fPkgPath f = []" "parseYAMLTag mapLower (tagYaml f) f = (name, inline)"
    "Kind (unwrapPtr ft) = KStruct"
  shows "walkFields mapLower ((f, ft) # fs) pfx =
           walkFields mapLower (Fields (unwrapPtr ft)) (if inline then pfx else joinPath pfx name)
           @ walkFields mapLower fs pfx"
  using assms by (simp add: walkStruct_struct joinPath_def Let_def del: walkStruct.simps)

lemma walkFields_leaf:
  assumes "fPkgPath f = []" "parseYAMLTag mapLower (tagYaml f) f = (name, inline)"
    "Kind (unwrapPtr ft) \<noteq> KStruct"
  shows "map fs_Path (walkFields mapLower ((f, ft) # fs) pfx) =
           (if name = ''-'' then [] else [if inline then pfx else joinPath pfx name])
           @ map fs_Path (walkFields mapLower fs pfx)"
  using assms by (simp add: joinPath_def Let_def del: walkStruct.simps)

lemma levelNames_struct:
  assumes "fPkgPath f = []" "parseYAMLTag mapLower (tagYaml f) f = (name, inline)"
    "Kind (unwrapPtr ft) = KStruct"
  shows "levelNames mapLower ((f, ft) # fs) =
           (if inline then levelNames mapLower (Fields (unwrapPtr ft)) else [Some name]) @ levelNames mapLower fs"
  using assms by (simp add: Let_def)

lemma levelNames_leaf:
  assumes "fPkgPath f = []" "parseYAMLTag mapLower (tagYaml f) f = (name, inline)"
    "Kind (unwrapPtr ft) \<noteq> KStruct"
  shows "levelNames mapLower ((f, ft) # fs) =
           (if name = ''-'' then [] else [if inline then None else Some name]) @ levelNames mapLower fs"
  using assms by (simp add: Let_def)

lemma uniqueBelow_struct:
  assumes "fPkgPath f = []" "parseYAMLTag mapLower (tagYaml f) f = (name, inline)"
    "Kind (unwrapPtr ft) = KStruct"
  shows "uniqueBelow mapLower ((f, ft) # fs) \<longleftrightarrow>
           (inline \<or> distinct (levelNames mapLower (Fields (unwrapPtr ft)))
                      \<and> list_all segOK (levelNames mapLower (Fields (unwrapPtr ft))))
           \<and> uniqueBelow mapLower (Fields (unwrapPtr ft)) \<and> uniqueBelow mapLower fs"
  using assms by (auto simp: Let_def)

lemma uniqueBelow_other:
  assumes "fPkgPath f \<noteq> [] \<or> Kind (unwrapPtr ft) \<noteq> KStruct"
  shows "uniqueBelow mapLower ((f, ft) # fs) \<longleftrightarrow> uniqueBelow mapLower fs"
  using assms by (auto simp: Let_def split: prod.splits)

text \<open>Below a prefix that is not empty, every path is the prefix or extends it by a dot.\<close>

lemma walkFields_below_prefix:
  "pfx \<noteq> [] \<Longrightarrow> p \<in> set (map fs_Path (walkFields mapLower fs pfx)) \<Longrightarrow>
   p = pfx \<or> prefix (pfx @ ''.'') p"
proof (induction "size_list (size_prod (\<lambda>_. 0) size) fs" arbitrary: fs pfx p rule: less_induct)
  case less
  show ?case
  proof (cases fs)
    case Nil
    with less.prems show ?thesis by simp
  next
    case (Cons a fs')
    obtain f ft where a: "a = (f, ft)" by (cases a)
    obtain name inline where pa: "parseYAMLTag mapLower (tagYaml f) f = (name, inline)"
      by (cases "parseYAMLTag mapLower (tagYaml f) f")
    have IHtail: "q \<in> set (map fs_Path (walkFields mapLower fs' pfx)) \<Longrightarrow>
                  q = pfx \<or> prefix (pfx @ ''.'') q" for q
      using less.hyps [of fs' pfx q] less.prems(1) Cons by simp
    have small: "size_list (size_prod (\<lambda>_. 0) size) (Fields (unwrapPtr ft))
                 < size_list (size_prod (\<lambda>_. 0) size) fs"
      unfolding Cons a by (rule size_Fields_unwrapPtr)
    show ?thesis
    proof (cases "fPkgPath f \<noteq> []")
      case True
      with less.prems(2) IHtail show ?thesis
        unfolding Cons a by (simp del: walkFields.simps add: walkFields_unexported)
    next
      case False
      then have ex: "fPkgPath f = []" by simp
      show ?thesis
      proof (cases "Kind (unwrapPtr ft) = KStruct")
        case True
        let ?q = "if inline then pfx else joinPath pfx name"
        have qne: "?q \<noteq> []" using less.prems(1) by (simp add: joinPath_def)
        from less.prems(2) have
          "p \<in> set (map fs_Path (walkFields mapLower (Fields (unwrapPtr ft)) ?q))
           \<or> p \<in> set (map fs_Path (walkFields mapLower fs' pfx))"
          unfolding Cons a walkFields_struct [OF ex pa True] by auto
        then show ?thesis
        proof
          assume "p \<in> set (map fs_Path (walkFields mapLower (Fields (unwrapPtr ft)) ?q))"
          then have "p = ?q \<or> prefix (?q @ ''.'') p"
            using less.hyps [OF small qne] by blast
          then show ?thesis
            using less.prems(1) by (cases inline) (auto simp: joinPath_def prefix_def)
        next
          assume "p \<in> set (map fs_Path (walkFields mapLower fs' pfx))"
          then show ?thesis by (rule IHtail)
        qed
      next
        case False
        from less.prems(2) have
          "p \<in> set (if name = ''-'' then [] else [if inline then pfx else joinPath pfx name])
           \<or> p \<in> set (map fs_Path (walkFields mapLower fs' pfx))"
          unfolding Cons a walkFields_leaf [OF ex pa False] by auto
        then show ?thesis
        proof
          assume "p \<in> set (if name = ''-'' then [] else [if inline then pfx else joinPath pfx name])"
          then show ?thesis
            using less.prems(1) by (cases inline) (auto simp: joinPath_def split: if_splits)
        next
          assume "p \<in> set (map fs_Path (walkFields mapLower fs' pfx))"
          then show ?thesis by (rule IHtail)
        qed
      qed
    qed
  qed
qed


lemma walkFields_Cons_append:
  "walkFields mapLower ((f, ft) # fs) pfx = walkFields mapLower [(f, ft)] pfx @ walkFields mapLower fs pfx"
  by (simp add: Let_def split: prod.splits del: walkStruct.simps)

lemma levelNames_Cons_append:
  "levelNames mapLower ((f, ft) # fs) = levelNames mapLower [(f, ft)] @ levelNames mapLower fs"
  by (simp add: Let_def split: prod.splits)

lemma uniqueBelow_Cons_conj:
  "uniqueBelow mapLower ((f, ft) # fs) \<longleftrightarrow> uniqueBelow mapLower [(f, ft)] \<and> uniqueBelow mapLower fs"
  by (auto simp: Let_def split: prod.splits)

lemma joinPath_longer: "n \<noteq> [] \<Longrightarrow> length pfx < length (joinPath pfx n)"
  by (simp add: joinPath_def)

text \<open>Every path of a level lies under one of the names of the level.\<close>

lemma walkFields_under_level:
  "list_all segOK (levelNames mapLower fs) \<Longrightarrow> p \<in> set (map fs_Path (walkFields mapLower fs pfx)) \<Longrightarrow>
   \<exists>seg \<in> set (levelNames mapLower fs). under pfx seg p"
proof (induction "size_list (size_prod (\<lambda>_. 0) size) fs" arbitrary: fs rule: less_induct)
  case less
  show ?case
  proof (cases fs)
    case Nil
    with less.prems show ?thesis by simp
  next
    case (Cons a fs')
    obtain f ft where a: "a = (f, ft)" by (cases a)
    obtain name inline where pa: "parseYAMLTag mapLower (tagYaml f) f = (name, inline)"
      by (cases "parseYAMLTag mapLower (tagYaml f) f")
    have small: "size_list (size_prod (\<lambda>_. 0) size) (Fields (unwrapPtr ft))
                 < size_list (size_prod (\<lambda>_. 0) size) fs"
      unfolding Cons a by (rule size_Fields_unwrapPtr)
    have tail: "\<exists>seg \<in> set (levelNames mapLower fs). under pfx seg p"
      if "p \<in> set (map fs_Path (walkFields mapLower fs' pfx))"
    proof -
      have "list_all segOK (levelNames mapLower fs')"
        using less.prems(1) unfolding Cons a levelNames_Cons_append [of mapLower f ft fs'] by simp
      then have "\<exists>seg \<in> set (levelNames mapLower fs'). under pfx seg p"
        using less.hyps [of fs'] that Cons by simp
      then show ?thesis
        unfolding Cons a levelNames_Cons_append [of mapLower f ft fs'] by auto
    qed
    show ?thesis
    proof (cases "fPkgPath f \<noteq> []")
      case True
      with less.prems(2) tail show ?thesis
        unfolding Cons a by (simp del: walkFields.simps add: walkFields_unexported)
    next
      case False
      then have ex: "fPkgPath f = []" by simp
      show ?thesis
      proof (cases "Kind (unwrapPtr ft) = KStruct")
        case True
        note ln = levelNames_struct [OF ex pa True, of fs']
        let ?q = "if inline then pfx else joinPath pfx name"
        from less.prems(2) have
          "p \<in> set (map fs_Path (walkFields mapLower (Fields (unwrapPtr ft)) ?q))
           \<or> p \<in> set (map fs_Path (walkFields mapLower fs' pfx))"
          unfolding Cons a walkFields_struct [OF ex pa True] by auto
        then show ?thesis
        proof
          assume here: "p \<in> set (map fs_Path (walkFields mapLower (Fields (unwrapPtr ft)) ?q))"
          show ?thesis
          proof (cases inline)
            case True
            have "list_all segOK (levelNames mapLower (Fields (unwrapPtr ft)))"
              using less.prems(1) True unfolding Cons a ln by simp
            then have "\<exists>seg \<in> set (levelNames mapLower (Fields (unwrapPtr ft))). under pfx seg p"
              using less.hyps [OF small] here True by simp
            then show ?thesis using True unfolding Cons a ln by auto
          next
            case False
            have ok: "segOK (Some name)"
              using less.prems(1) False unfolding Cons a ln by simp
            then have "joinPath pfx name \<noteq> []" by (auto simp: joinPath_def)
            then have "under pfx (Some name) p"
              using walkFields_below_prefix [of "joinPath pfx name" p mapLower "Fields (unwrapPtr ft)"]
                here False by simp
            then show ?thesis using False unfolding Cons a ln by auto
          qed
        next
          assume "p \<in> set (map fs_Path (walkFields mapLower fs' pfx))"
          then show ?thesis by (rule tail)
        qed
      next
        case False
        note ln = levelNames_leaf [OF ex pa False, of fs']
        from less.prems(2) have
          "p \<in> set (if name = ''-'' then [] else [if inline then pfx else joinPath pfx name])
           \<or> p \<in> set (map fs_Path (walkFields mapLower fs' pfx))"
          unfolding Cons a walkFields_leaf [OF ex pa False] by auto
        then show ?thesis
        proof
          assume "p \<in> set (if name = ''-'' then [] else [if inline then pfx else joinPath pfx name])"
          then show ?thesis
            unfolding Cons a ln by (cases inline) (auto split: if_splits)
        next
          assume "p \<in> set (map fs_Path (walkFields mapLower fs' pfx))"
          then show ?thesis by (rule tail)
        qed
      qed
    qed
  qed
qed

lemma under_Some_takeWhile:
  assumes "CHR ''.'' \<notin> set n" "under pfx (Some n) p"
  shows "takeWhile (\<lambda>c. c \<noteq> CHR ''.'') (drop (length (joinPath pfx [])) p) = n"
proof -
  have j: "joinPath pfx n = joinPath pfx [] @ n" by (simp add: joinPath_def)
  have tw: "takeWhile (\<lambda>c. c \<noteq> CHR ''.'') n = n"
    using assms(1) by (auto simp: takeWhile_eq_all_conv)
  from assms(2) consider "p = joinPath pfx [] @ n"
    | z where "p = joinPath pfx [] @ n @ CHR ''.'' # z"
    unfolding under.simps j by (auto simp: prefix_def)
  then show ?thesis
  proof cases
    case 1
    then show ?thesis using tw by simp
  next
    case 2
    then show ?thesis using tw by (simp add: takeWhile_tail)
  qed
qed

lemma under_unique:
  assumes "segOK s1" "segOK s2" "under pfx s1 p" "under pfx s2 p"
  shows "s1 = s2"
proof -
  have ns: False if "segOK (Some n)" "under pfx (Some n) p" "under pfx None p" for n
  proof -
    from that(1) have "length pfx < length (joinPath pfx n)"
      by (simp add: joinPath_longer)
    moreover from that(2) have "length (joinPath pfx n) \<le> length p"
      by (auto simp: prefix_def)
    ultimately show False using that(3) by simp
  qed
  show ?thesis
  proof (cases s1)
    case None
    then show ?thesis using assms ns [of "the s2"] by (cases s2) auto
  next
    case (Some n)
    show ?thesis
    proof (cases s2)
      case None
      with Some assms ns [of n] show ?thesis by auto
    next
      case (Some m)
      with \<open>s1 = Some n\<close> assms
        under_Some_takeWhile [of n pfx p] under_Some_takeWhile [of m pfx p]
      show ?thesis by simp
    qed
  qed
qed

lemma walkFields_distinct:
  "distinct (levelNames mapLower fs) \<Longrightarrow> list_all segOK (levelNames mapLower fs) \<Longrightarrow> uniqueBelow mapLower fs \<Longrightarrow>
   distinct (map fs_Path (walkFields mapLower fs pfx))"
proof (induction "size_list (size_prod (\<lambda>_. 0) size) fs" arbitrary: fs pfx rule: less_induct)
  case less
  show ?case
  proof (cases fs)
    case Nil
    then show ?thesis by simp
  next
    case (Cons a fs')
    obtain f ft where a: "a = (f, ft)" by (cases a)
    obtain name inline where pa: "parseYAMLTag mapLower (tagYaml f) f = (name, inline)"
      by (cases "parseYAMLTag mapLower (tagYaml f) f")
    have small: "size_list (size_prod (\<lambda>_. 0) size) (Fields (unwrapPtr ft))
                 < size_list (size_prod (\<lambda>_. 0) size) fs"
      unfolding Cons a by (rule size_Fields_unwrapPtr)
    note lsplit = levelNames_Cons_append [of mapLower f ft fs']
    have d1: "distinct (levelNames mapLower [(f, ft)])" and d2: "distinct (levelNames mapLower fs')"
      and dj: "set (levelNames mapLower [(f, ft)]) \<inter> set (levelNames mapLower fs') = {}"
      using less.prems(1) unfolding Cons a lsplit by auto
    have o1: "list_all segOK (levelNames mapLower [(f, ft)])" and o2: "list_all segOK (levelNames mapLower fs')"
      using less.prems(2) unfolding Cons a lsplit by auto
    have "uniqueBelow mapLower [(f, ft)] \<and> uniqueBelow mapLower fs'"
      using less.prems(3) unfolding Cons a by (simp only: uniqueBelow_Cons_conj [of mapLower f ft fs'])
    then have u1: "uniqueBelow mapLower [(f, ft)]" and u2: "uniqueBelow mapLower fs'"
      by blast+
    have tailD: "distinct (map fs_Path (walkFields mapLower fs' pfx))"
      using less.hyps [of fs'] d2 o2 u2 Cons by simp
    have disjoint: "set (map fs_Path (walkFields mapLower [(f, ft)] pfx))
                    \<inter> set (map fs_Path (walkFields mapLower fs' pfx)) = {}"
    proof (rule ccontr)
      assume "set (map fs_Path (walkFields mapLower [(f, ft)] pfx))
                    \<inter> set (map fs_Path (walkFields mapLower fs' pfx)) \<noteq> {}"
      then obtain p where p1: "p \<in> set (map fs_Path (walkFields mapLower [(f, ft)] pfx))"
        and p2: "p \<in> set (map fs_Path (walkFields mapLower fs' pfx))" by blast
      from walkFields_under_level [OF o1 p1] obtain s1
        where s1: "s1 \<in> set (levelNames mapLower [(f, ft)])" "under pfx s1 p" by blast
      from walkFields_under_level [OF o2 p2] obtain s2
        where s2: "s2 \<in> set (levelNames mapLower fs')" "under pfx s2 p" by blast
      have "segOK s1" "segOK s2" using o1 o2 s1(1) s2(1) by (auto simp: list_all_iff)
      then have "s1 = s2" using s1(2) s2(2) by (rule under_unique)
      with s1(1) s2(1) dj show False by auto
    qed
    have headD: "distinct (map fs_Path (walkFields mapLower [(f, ft)] pfx))"
    proof (cases "fPkgPath f \<noteq> []")
      case True
      then show ?thesis by simp
    next
      case False
      then have ex: "fPkgPath f = []" by simp
      show ?thesis
      proof (cases "Kind (unwrapPtr ft) = KStruct")
        case True
        let ?q = "if inline then pfx else joinPath pfx name"
        have "distinct (levelNames mapLower (Fields (unwrapPtr ft)))
              \<and> list_all segOK (levelNames mapLower (Fields (unwrapPtr ft)))
              \<and> uniqueBelow mapLower (Fields (unwrapPtr ft))"
          using d1 o1 u1
          unfolding levelNames_struct [OF ex pa True, of "[]"]
            uniqueBelow_struct [OF ex pa True, of "[]"]
          by (cases inline) auto
        then have "distinct (map fs_Path (walkFields mapLower (Fields (unwrapPtr ft)) ?q))"
          using less.hyps [OF small] by blast
        then show ?thesis
          unfolding walkFields_struct [OF ex pa True, of "[]"] by simp
      next
        case False
        show ?thesis
          unfolding walkFields_leaf [OF ex pa False, of "[]"] by simp
      qed
    qed
    show ?thesis
      unfolding Cons a walkFields_Cons_append [of mapLower f ft fs' pfx]
      using headD tailD disjoint by simp
  qed
qed

text \<open>
  Claim C9, as the code has it. The paths of the field specifications of a type are
  pairwise different when, at every level of the type, the external names of the exported
  fields, with the names of inline structs merged in, are pairwise different, not empty
  and free of dots, and at most one inline field of the level is not a struct. The same
  holds of the list \<open>Spec\<close> returns when the registered types are of this kind.
\<close>

theorem C9_paths_unique_when_names_unique:
  assumes "namesUnique mapLower t"
  shows "distinct (map fs_Path (walkStruct mapLower t pfx))
       \<and> (\<forall>R req specs. (\<forall>e \<in> set (reqs R). namesUnique mapLower (e_base e)) \<and> Spec mapLower R req = Inr specs
            \<longrightarrow> distinct (map fs_Path specs))"
proof -
  have w: "distinct (map fs_Path (walkStruct mapLower t' q))" if "namesUnique mapLower t'" for t' q
  proof -
    let ?t = "if Kind t' = KPtr then Elem t' else t'"
    show ?thesis
    proof (cases "Kind ?t = KStruct")
      case True
      then have "walkStruct mapLower t' q = walkFields mapLower (Fields ?t) q" by simp
      then show ?thesis
        using that walkFields_distinct [of mapLower "Fields ?t" q]
        by (simp add: namesUnique_def Let_def del: walkStruct.simps)
    next
      case False
      then show ?thesis by simp
    qed
  qed
  have s: "distinct (map fs_Path specs)"
    if "\<forall>e \<in> set (reqs R). namesUnique mapLower (e_base e)" "Spec mapLower R req = Inr specs" for R req specs
  proof -
    from that(2) obtain m where
      m: "find (\<lambda>r. PkgPath (e_base r) = req_PkgPath req
                     \<and> Name (e_base r) = trimPkg (req_Type req)) (reqs R) = Some m"
      and sp: "specs = walkStruct mapLower (e_base m) []"
      by (auto simp: Spec_def split: option.splits)
    from m have "m \<in> set (reqs R)"
      by (auto simp: find_Some_iff)
    with that(1) sp w show ?thesis by blast
  qed
  show ?thesis using w [OF assms] s by blast
qed

theorem C9_paths_unique_when_names_unique_witness:
  "namesUnique keepNonASCII outerType
   \<and> map fs_Path (walkStruct keepNonASCII outerType []) = [''c'', ''d'']
   \<and> distinct (map fs_Path (walkStruct keepNonASCII outerType []))"
proof -
  have n: "namesUnique keepNonASCII outerType" by code_simp
  have e: "map fs_Path (walkStruct keepNonASCII outerType []) = [''c'', ''d'']" by code_simp
  show ?thesis
    using C9_paths_unique_when_names_unique [OF n, of "[]"] n e by simp
qed

text \<open>
  The example type has a tag on every field, so its paths do not depend on how a string
  with bytes from 128 on is lowered.
\<close>

lemma inlineCollision_paths:
  "map fs_Path (walkStruct mapLower inlineCollision []) = [''c'', ''c'']"
  by code_simp

text \<open>
  Claim C9 fails as stated. Without the condition two entries can have one path:
  \<open>walkStruct\<close> records the field \<open>c\<close> of the inline struct and the field \<open>c\<close> of
  the struct itself.
\<close>

theorem C9_inline_name_collides:
  "map fs_Path (walkStruct keepNonASCII inlineCollision []) = [''c'', ''c'']
   \<and> \<not> distinct (map fs_Path (walkStruct keepNonASCII inlineCollision []))"
  by code_simp

end
